theory Spec2Isabelle
  imports Main "HOL-Library.FSet"
begin

section \<open>Strings, runes and the library functions the generator calls\<close>

text \<open>
  A Go string is modelled as the list of its runes, one \<^typ>\<open>char\<close> per rune, so the
  model covers the code points U+0000 to U+00FF. \<open>unicode.IsLetter\<close> and
  \<open>unicode.ToLower\<close> are the library's tables restricted to that range.
\<close>

definition IsLetter :: "char \<Rightarrow> bool" where
  "IsLetter r =
     (let n = (of_char r :: nat)
      in (65 \<le> n \<and> n \<le> 90) \<or> (97 \<le> n \<and> n \<le> 122) \<or> n = 170 \<or> n = 181 \<or> n = 186
         \<or> (192 \<le> n \<and> n \<le> 214) \<or> (216 \<le> n \<and> n \<le> 246) \<or> (248 \<le> n \<and> n \<le> 255))"

definition ToLower :: "char \<Rightarrow> char" where
  "ToLower r =
     (let n = (of_char r :: nat)
      in if (65 \<le> n \<and> n \<le> 90) \<or> (192 \<le> n \<and> n \<le> 214) \<or> (216 \<le> n \<and> n \<le> 222)
         then char_of (n + 32) else r)"

text \<open>\<open>strings.Split(s, sep)\<close> for a one-rune separator: the pieces between the
  separators, always at least one piece.\<close>

fun Split :: "string \<Rightarrow> char \<Rightarrow> string list" where
  "Split [] sep = [[]]"
| "Split (c # cs) sep =
     (if c = sep then [] # Split cs sep
      else (case Split cs sep of [] \<Rightarrow> [[c]] | p # ps \<Rightarrow> (c # p) # ps))"

text \<open>\<open>strings.Join(elems, sep)\<close>.\<close>

fun Join :: "string list \<Rightarrow> string \<Rightarrow> string" where
  "Join [] sep = []"
| "Join [x] sep = x"
| "Join (x # y # ys) sep = x @ sep @ Join (y # ys) sep"

text \<open>The verb \<open>%d\<close> of \<open>fmt.Sprintf\<close> on a non-negative integer: its decimal digits.\<close>

definition digit :: "nat \<Rightarrow> char" where
  "digit d = ''0123456789'' ! d"

fun itoa :: "nat \<Rightarrow> string" where
  "itoa n = (if n < 10 then [digit n] else itoa (n div 10) @ [digit (n mod 10)])"

declare itoa.simps [simp del]

section \<open>Type descriptors\<close>

text \<open>
  What the generator reads from a \<open>reflect.Type\<close>: its \<open>String()\<close>, \<open>PkgPath()\<close>
  and \<open>Name()\<close>, and whether it is convertible to \<open>error\<close> and to
  \<open>context.Context\<close>. The kind is the constructor of \<open>rtype\<close>; the kinds the code
  never dispatches on are \<open>Other\<close>. \<open>Elem()\<close>, \<open>Key()\<close>, \<open>Len()\<close>, \<open>ChanDir()\<close>,
  \<open>In(i)\<close> and \<open>Out(i)\<close> are the constructor's arguments.
\<close>

record tinfo =
  String :: string
  PkgPath :: string
  TypeName :: string
  ConvertibleToError :: bool
  ConvertibleToCtx :: bool

datatype ChanDir = RecvDir | SendDir | BothDir

fun ChanDir_String :: "ChanDir \<Rightarrow> string" where
  "ChanDir_String RecvDir = ''<-chan''"
| "ChanDir_String SendDir = ''chan<-''"
| "ChanDir_String BothDir = ''chan''"

datatype rtype =
    Ptr tinfo rtype
  | Slice tinfo rtype
  | Array tinfo nat rtype
  | Chan tinfo ChanDir rtype
  | Map tinfo rtype rtype
  | Func tinfo "rtype list" "rtype list"
  | Other tinfo

fun info :: "rtype \<Rightarrow> tinfo" where
  "info (Ptr i _) = i"
| "info (Slice i _) = i"
| "info (Array i _ _) = i"
| "info (Chan i _ _) = i"
| "info (Map i _ _) = i"
| "info (Func i _ _) = i"
| "info (Other i) = i"

section \<open>Names: packageAndName, First, Clean, lowerName\<close>

definition packageAndName :: "rtype \<Rightarrow> string \<times> string" where
  "packageAndName t =
     (let pkgPath = PkgPath (info t)
      in if pkgPath = [] then ([], String (info t))
         else
           (let parts = Split (String (info t)) (CHR ''.'')
            in if length parts = 0 then ([], [])
               else (hd parts, if length parts > 1 then parts ! 1 else [])))"

definition First :: "string \<Rightarrow> string" where
  "First s =
     (let parts = Split s (CHR ''.'')
      in if length parts = 0 then ''u''
         else (case find IsLetter (last parts) of
                 Some r \<Rightarrow> [ToLower r]
               | None \<Rightarrow> ''z''))"

definition Clean :: "string \<Rightarrow> string" where
  "Clean s = filter IsLetter s"

definition lowerName :: "string \<Rightarrow> string \<times> string" where
  "lowerName s =
     (let parts = Split s (CHR ''.'')
      in if length parts = 0 then (''u'', [])
         else (let clean = Clean (last parts) in (map ToLower clean, clean)))"

section \<open>Short: a unique argument name\<close>

text \<open>The first loop of \<open>Short\<close>: \<open>Elem()\<close> while the kind is pointer or slice.\<close>

fun stripPtrSlice :: "rtype \<Rightarrow> rtype" where
  "stripPtrSlice (Ptr _ e) = stripPtrSlice e"
| "stripPtrSlice (Slice _ e) = stripPtrSlice e"
| "stripPtrSlice t = t"

lemma digit_inj: "d < 10 \<Longrightarrow> e < 10 \<Longrightarrow> digit d = digit e \<Longrightarrow> d = e"
proof -
  assume d: "d < 10" and e: "e < 10" and eq: "digit d = digit e"
  have dist: "distinct ''0123456789''" by simp
  have len: "length ''0123456789'' = 10" by simp
  from d e eq dist len show "d = e"
    unfolding digit_def by (metis nth_eq_iff_index_eq)
qed

lemma itoa_not_Nil: "itoa n \<noteq> []"
  by (subst itoa.simps) simp

lemma itoa_inj: "itoa n = itoa m \<Longrightarrow> n = m"
proof (induction n arbitrary: m rule: itoa.induct)
  case (1 n)
  show ?case
  proof (cases "n < 10")
    case small: True
    show ?thesis
    proof (cases "m < 10")
      case True
      with small "1.prems" show ?thesis
        by (simp add: itoa.simps [of n] itoa.simps [of m] digit_inj)
    next
      case False
      with small "1.prems" itoa_not_Nil [of "m div 10"] show ?thesis
        by (simp add: itoa.simps [of n] itoa.simps [of m])
    qed
  next
    case big: False
    show ?thesis
    proof (cases "m < 10")
      case True
      with big "1.prems" itoa_not_Nil [of "n div 10"] show ?thesis
        by (simp add: itoa.simps [of n] itoa.simps [of m])
    next
      case False
      with big "1.prems" have a: "itoa (n div 10) = itoa (m div 10)"
        and b: "digit (n mod 10) = digit (m mod 10)"
        by (simp_all add: itoa.simps [of n] itoa.simps [of m])
      from big a have "n div 10 = m div 10" by (rule "1.IH")
      moreover from b have "n mod 10 = m mod 10" by (simp add: digit_inj)
      ultimately show ?thesis by (metis div_mult_mod_eq)
    qed
  qed
qed

lemma finite_suffixes: "finite {k. f @ itoa k |\<in>| cur}"
proof -
  have "inj (\<lambda>k. f @ itoa k)"
    by (rule injI) (simp add: itoa_inj)
  then have "finite ((\<lambda>k. f @ itoa k) -` fset cur)"
    by (intro finite_vimageI) simp_all
  then show ?thesis by (simp add: vimage_def)
qed

text \<open>The second loop of \<open>Short\<close>: \<open>name\<close> is tried, then \<open>f\<close> followed by
  \<open>c\<close>, \<open>c + 1\<close>, ...; the first name that is not in \<open>cur\<close> is added to it and
  returned. The counter is a Go \<open>int\<close>; it stays below the size of \<open>cur\<close> plus two.\<close>

function uniqueName :: "string \<Rightarrow> string fset \<Rightarrow> string \<Rightarrow> nat \<Rightarrow> string \<times> string fset" where
  "uniqueName f cur name c =
     (if name |\<notin>| cur then (name, finsert name cur)
      else uniqueName f cur (f @ itoa c) (c + 1))"
  by pat_completeness auto
termination
proof (relation "measure (\<lambda>(f, cur, name, c).
          card {k. c \<le> k \<and> f @ itoa k |\<in>| cur} + (if name |\<in>| cur then 1 else 0))")
  show "wf (measure (\<lambda>(f, cur, name, c).
          card {k. c \<le> k \<and> f @ itoa k |\<in>| cur} + (if name |\<in>| cur then 1 else 0)))"
    by simp
next
  fix f :: string and cur :: "string fset" and name :: string and c :: nat
  assume "\<not> name |\<notin>| cur"
  then have inn: "name |\<in>| cur" by simp
  let ?S = "\<lambda>c. {k. c \<le> k \<and> f @ itoa k |\<in>| cur}"
  have fin: "finite (?S c)"
    by (rule finite_subset [OF _ finite_suffixes [of f cur]]) auto
  show "((f, cur, f @ itoa c, c + 1), (f, cur, name, c)) \<in> measure (\<lambda>(f, cur, name, c).
          card {k. c \<le> k \<and> f @ itoa k |\<in>| cur} + (if name |\<in>| cur then 1 else 0))"
  proof (cases "f @ itoa c |\<in>| cur")
    case True
    then have "?S c = insert c (?S (c + 1))" by (auto simp: le_Suc_eq)
    moreover have "c \<notin> ?S (c + 1)" by simp
    moreover have "finite (?S (c + 1))"
      by (rule finite_subset [OF _ fin]) auto
    ultimately have "card (?S c) = Suc (card (?S (c + 1)))" by simp
    with True inn show ?thesis by simp
  next
    case False
    then have "?S (c + 1) = ?S c"
      by (auto simp: Suc_le_eq order_le_less)
    with False inn show ?thesis by simp
  qed
qed

declare uniqueName.simps [simp del]

text \<open>The map \<open>cur\<close> of \<open>Short\<close> is passed in and returned updated.\<close>

definition Short :: "rtype \<Rightarrow> string fset \<Rightarrow> string \<times> string fset" where
  "Short t cur =
     (let tt = stripPtrSlice t;
          (pkg, name) = packageAndName tt;
          f = First name;
          f = (if ConvertibleToError (info t) then ''err''
               else if ConvertibleToCtx (info t) then ''ctx''
               else (let (n, clean) = lowerName name
                     in if length n \<le> 3 \<and> n \<noteq> clean \<and> n \<noteq> pkg then n else f))
      in uniqueName f cur f 1)"

section \<open>Methods\<close>

text \<open>A \<open>reflect.Method\<close>: its name and the inputs and outputs of its function type.\<close>

record rmethod =
  Name :: string
  In :: "rtype list"
  Out :: "rtype list"

record Arg =
  Type :: rtype
  ArgName :: string
  Sep :: string

record Method =
  reflectMethod :: rmethod
  Inputs :: "Arg list"
  Outputs :: "Arg list"
  Comment :: string

text \<open>One of the two loops of \<open>Method\<close> over the parameters, with the scope threaded.\<close>

fun nameArgs :: "rtype list \<Rightarrow> string fset \<Rightarrow> Arg list \<times> string fset" where
  "nameArgs [] cur = ([], cur)"
| "nameArgs (t # ts) cur =
     (let sep = (if ts = [] then [] else '', '');
          (n, cur1) = Short t cur;
          (as, cur2) = nameArgs ts cur1
      in (\<lparr>Type = t, ArgName = n, Sep = sep\<rparr> # as, cur2))"

definition Method :: "string \<Rightarrow> rmethod \<Rightarrow> Method" where
  "Method recName ft =
     (let cur = {|recName|};
          (inp, cur1) = nameArgs (In ft) cur;
          (out, cur2) = nameArgs (Out ft) cur1
      in \<lparr>reflectMethod = ft, Inputs = inp, Outputs = out, Comment = []\<rparr>)"

section \<open>Generation options\<close>

text \<open>
  The method table of a \<open>reflect.Type\<close> (\<open>NumMethod()\<close>, \<open>Method(i)\<close>) is kept
  beside its description; only the tables of \<open>Inter\<close> and of the type of \<open>Existing\<close>
  are read. \<open>Existing\<close> is an \<open>interface{}\<close>: \<open>None\<close> is nil, otherwise the
  dynamic type of the value. A Go map that is nil is \<open>None\<close>.
\<close>

record TypeDesc =
  self :: rtype
  methodTable :: "rmethod list"

record GenOpts =
  PkgName :: string
  ImplName :: string
  Inter :: TypeDesc
  Existing :: "TypeDesc option"
  NoNamedReturnValues :: bool
  MethodBlacklist :: "string set option"
  Comments :: "(string \<rightharpoonup> string) option"
  NoGoImports :: bool
  Extra :: "string list"

text \<open>An \<open>error\<close> value with its message, or a panic, which no function here recovers:
  the function that panics returns nothing, and the state is what it was at that point.\<close>

datatype error = Error string | Panic string

fun errorString :: "error \<Rightarrow> string" where
  "errorString (Error s) = s"
| "errorString (Panic s) = s"

text \<open>Reading a map that may be nil.\<close>

definition inBlacklist :: "GenOpts \<Rightarrow> string \<Rightarrow> bool" where
  "inBlacklist opts name = (case MethodBlacklist opts of None \<Rightarrow> False | Some bl \<Rightarrow> name \<in> bl)"

definition commentOf :: "GenOpts \<Rightarrow> string \<Rightarrow> string option" where
  "commentOf opts name = (case Comments opts of None \<Rightarrow> None | Some cm \<Rightarrow> cm name)"

definition Methods :: "GenOpts \<Rightarrow> TypeDesc \<Rightarrow> Method list" where
  "Methods opts it =
     (let rec = First (ImplName opts)
      in map (\<lambda>ft. let mtd = Method rec ft
                   in (case commentOf opts (Name ft) of
                         Some c \<Rightarrow> mtd\<lparr>Comment := c\<rparr>
                       | None \<Rightarrow> mtd))
           (filter (\<lambda>ft. \<not> inBlacklist opts (Name ft)) (methodTable it)))"

section \<open>Diff\<close>

text \<open>The loop of \<open>diff\<close>, entered with lists of equal length; \<open>i\<close> is the index of
  the heads.\<close>

fun diffLoop :: "string \<Rightarrow> nat \<Rightarrow> Arg list \<Rightarrow> Arg list \<Rightarrow> string list" where
  "diffLoop n i (x # xs) (y # ys) =
     (if String (info (Type x)) \<noteq> String (info (Type y))
      then (n @ ''s['' @ itoa i @ '']: had `'' @ String (info (Type x)) @ ''` want `''
              @ String (info (Type y)) @ ''`'') # diffLoop n (Suc i) xs ys
      else diffLoop n (Suc i) xs ys)"
| "diffLoop n i _ _ = []"

definition diff :: "string \<Rightarrow> Arg list \<Rightarrow> Arg list \<Rightarrow> string" where
  "diff n a b =
     (if length a \<noteq> length b
      then ''number of '' @ n @ ''s: had '' @ itoa (length a) @ '', want '' @ itoa (length b)
      else Join (diffLoop n 0 a b) ''; '')"

definition Diff :: "Method \<Rightarrow> Method \<Rightarrow> string" where
  "Diff m other =
     (if Name (reflectMethod m) \<noteq> Name (reflectMethod other)
      then ''names are different: '' @ Name (reflectMethod m) @ '' != '' @ Name (reflectMethod other)
      else
        (let a = diff ''input'' (Inputs m) (Inputs other);
             b = diff ''output'' (Outputs m) (Outputs other)
         in if a \<noteq> [] \<and> b \<noteq> [] then a @ ''; '' @ b else a @ b))"

section \<open>Reconciliation with an existing type\<close>

definition toMap :: "Method list \<Rightarrow> (string \<rightharpoonup> Method)" where
  "toMap m = fold (\<lambda>x r. r(Name (reflectMethod x) \<mapsto> x)) m Map.empty"

text \<open>The keys of \<open>toMap m\<close>, each once. \<open>range\<close> over a Go map takes them in an order
  that is not specified; the loop below takes them in this one, and its result is the
  same in any other (\<open>forEachKey_order\<close>).\<close>

definition mapKeys :: "Method list \<Rightarrow> string list" where
  "mapKeys m = remdups (map (\<lambda>x. Name (reflectMethod x)) m)"

text \<open>\<open>em[i].Inputs = mtd.Inputs[1:]\<close> for every \<open>i\<close>; slicing an empty list panics.\<close>

fun dropReceivers :: "Method list \<Rightarrow> error + Method list" where
  "dropReceivers [] = Inr []"
| "dropReceivers (mtd # em) =
     (case Inputs mtd of
        [] \<Rightarrow> Inl (Panic ''runtime error: slice bounds out of range'')
      | _ # inp \<Rightarrow>
          (case dropReceivers em of
             Inl e \<Rightarrow> Inl e
           | Inr em' \<Rightarrow> Inr (mtd\<lparr>Inputs := inp\<rparr> # em')))"

text \<open>The body of the loop over \<open>rMap\<close> at key \<open>k\<close>. Writing to a nil map panics.\<close>

definition reconcile :: "(string \<rightharpoonup> Method) \<Rightarrow> (string \<rightharpoonup> Method) \<Rightarrow> string \<Rightarrow> GenOpts
    \<Rightarrow> GenOpts \<times> error option" where
  "reconcile eMap rMap k opts =
     (case rMap k of
        None \<Rightarrow> (opts, None)
      | Some v \<Rightarrow>
          (case eMap (Name (reflectMethod v)) of
             None \<Rightarrow> (opts, None)
           | Some w \<Rightarrow>
               (let d = Diff w v
                in if d \<noteq> [] then
                     (let comm = (case commentOf opts k of Some c \<Rightarrow> c | None \<Rightarrow> []);
                          comm = (if comm \<noteq> [] then comm @ '' '' else comm)
                      in (case Comments opts of
                            None \<Rightarrow> (opts, Some (Panic ''assignment to entry in nil map''))
                          | Some cm \<Rightarrow> (opts\<lparr>Comments := Some (cm(k \<mapsto> comm @ d))\<rparr>, None)))
                   else
                     (case MethodBlacklist opts of
                        None \<Rightarrow> (opts, Some (Panic ''assignment to entry in nil map''))
                      | Some bl \<Rightarrow> (opts\<lparr>MethodBlacklist := Some (insert k bl)\<rparr>, None)))))"

fun forEachKey :: "(string \<Rightarrow> GenOpts \<Rightarrow> GenOpts \<times> error option) \<Rightarrow> string list \<Rightarrow> GenOpts
    \<Rightarrow> GenOpts \<times> error option" where
  "forEachKey body [] opts = (opts, None)"
| "forEachKey body (k # ks) opts =
     (case body k opts of
        (opts', None) \<Rightarrow> forEachKey body ks opts'
      | (opts', Some e) \<Rightarrow> (opts', Some e))"

definition handleExisting :: "GenOpts \<Rightarrow> GenOpts \<times> error option" where
  "handleExisting opts =
     (case Existing opts of
        None \<Rightarrow> (opts, None)
      | Some et \<Rightarrow>
          if ImplName opts \<noteq> [] then
            (opts, Some (Error ''only one of ImplName and existing should be set.''))
          else if PkgName opts \<noteq> [] then
            (opts, Some (Error ''only one of PkgName and existing should be set.''))
          else
            (case dropReceivers (Methods opts et) of
               Inl e \<Rightarrow> (opts, Some e)
             | Inr em \<Rightarrow>
                 (let mtds = Methods opts (Inter opts);
                      eMap = toMap em;
                      rMap = toMap mtds
                  in (case forEachKey (reconcile eMap rMap) (mapKeys mtds) opts of
                        (opts, Some e) \<Rightarrow> (opts, Some e)
                      | (opts, None) \<Rightarrow>
                          (case self et of
                             Ptr _ elem \<Rightarrow>
                               (let (pkg, name) = packageAndName elem
                                in (opts\<lparr>PkgName := pkg, ImplName := ''*'' @ name\<rparr>, None))
                           | _ \<Rightarrow>
                               (let (pkg, name) = packageAndName (self et)
                                in (opts\<lparr>PkgName := pkg, ImplName := name\<rparr>, None)))))))"

section \<open>The template\<close>

fun GetName :: "GenOpts \<Rightarrow> rtype \<Rightarrow> string" where
  "GetName opts t =
     (let name = TypeName (info t)
      in if name \<noteq> [] then
           (let (pkg, _) = packageAndName t
            in if pkg = [] \<or> pkg = PkgName opts then name else pkg @ ''.'' @ name)
         else
           (case t of
              Ptr _ e \<Rightarrow> ''*'' @ GetName opts e
            | Map _ k e \<Rightarrow> ''map['' @ GetName opts k @ '']'' @ GetName opts e
            | Slice _ e \<Rightarrow> ''[]'' @ GetName opts e
            | Chan _ d e \<Rightarrow> ChanDir_String d @ '' '' @ GetName opts e
            | Array _ l e \<Rightarrow> ''['' @ itoa l @ '']'' @ GetName opts e
            | Func _ ins outs \<Rightarrow>
                (let inputs = map (GetName opts) ins;
                     outputs = map (GetName opts) outs;
                     out = Join outputs '', '';
                     out = (if length outputs > 1 then ''('' @ out @ '')'' else out)
                 in ''func ('' @ Join inputs '', '' @ '') '' @ out)
            | Other _ \<Rightarrow> String (info t)))"

declare GetName.simps [simp del]

text \<open>The text \<open>templateS\<close> produces for one element of \<open>$R.Methods .Inter\<close>;
  \<open>rec\<close> is the template variable \<open>$rec\<close>.\<close>

definition templateMethod :: "GenOpts \<Rightarrow> string \<Rightarrow> Method \<Rightarrow> string" where
  "templateMethod R rec m =
     [CHR 0x0A]
     @ (if Comment m \<noteq> [] then ''// '' @ Comment m @ '' '' else [])
     @ [CHR 0x0A] @ ''func ('' @ rec @ '' '' @ ImplName R @ '') '' @ Name (reflectMethod m) @ '' (''
     @ concat (map (\<lambda>a. '' '' @ ArgName a @ '' '' @ GetName R (Type a) @ '' '' @ Sep a @ '' '')
                 (Inputs m))
     @ '') (''
     @ concat (map (\<lambda>a. '' '' @ (if \<not> NoNamedReturnValues R then '' '' @ ArgName a @ '' '' else [])
                          @ '' '' @ GetName R (Type a) @ '' '' @ Sep a @ '' '')
                 (Outputs m))
     @ '') {'' @ [CHR 0x0A, CHR 0x09] @ ''panic(errors.New('' @ [CHR 0x22] @ ImplName R @ ''.''
     @ Name (reflectMethod m) @ '' not implemented'' @ [CHR 0x22] @ '')) }'' @ [CHR 0x0A]"

text \<open>The text \<open>tm.Execute(buf, opts)\<close> leaves in \<open>buf\<close>.\<close>

definition templateS :: "GenOpts \<Rightarrow> string" where
  "templateS R =
     [CHR 0x0A] @ [CHR 0x0A] @ ''package '' @ PkgName R @ [CHR 0x0A, CHR 0x0A]
     @ ''import ('' @ [CHR 0x0A, CHR 0x09, CHR 0x22] @ ''errors'' @ [CHR 0x22, CHR 0x0A, CHR 0x09]
     @ concat (map (\<lambda>e. [CHR 0x22] @ e @ [CHR 0x22, CHR 0x0A, CHR 0x09]) (Extra R))
     @ '')'' @ [CHR 0x0A] @ ''type '' @ Clean (ImplName R) @ '' struct{}'' @ [CHR 0x0A, CHR 0x0A]
     @ [CHR 0x0A]
     @ concat (map (templateMethod R (First (ImplName R))) (Methods R (Inter R)))
     @ [CHR 0x0A]"

section \<open>Generate\<close>

text \<open>
  The collaborators of \<open>Generate\<close> outside the repository: \<open>parser.ParseFile\<close>,
  \<open>printer.Config.Fprint\<close>, \<open>imports.Process\<close>, and the \<open>Write\<close> of the
  \<open>io.Writer\<close> \<open>out\<close>, whose state is \<open>'w\<close>.
\<close>

record ('ast, 'w) env =
  ParseFile :: "string \<Rightarrow> error + 'ast"
  Fprint :: "'ast \<Rightarrow> error + string"
  Process :: "string \<Rightarrow> error + string"
  Write :: "'w \<Rightarrow> string \<Rightarrow> 'w \<times> error option"

text \<open>\<open>tm.Execute\<close> writes to a \<open>bytes.Buffer\<close>, which does not fail, and the methods
  the template calls return no error: it always returns the text.\<close>

definition Execute :: "GenOpts \<Rightarrow> error + string" where
  "Execute opts = Inr (templateS opts)"

definition Generate :: "('ast, 'w) env \<Rightarrow> GenOpts \<Rightarrow> 'w \<Rightarrow> GenOpts \<times> 'w \<times> error option" where
  "Generate env opts out =
     (let opts = (if MethodBlacklist opts = None then opts\<lparr>MethodBlacklist := Some {}\<rparr> else opts);
          opts = (if Comments opts = None then opts\<lparr>Comments := Some Map.empty\<rparr> else opts)
      in (case handleExisting opts of
            (opts, Some err) \<Rightarrow> (opts, out, Some err)
          | (opts, None) \<Rightarrow>
              (let opts = (if PkgName opts = []
                           then opts\<lparr>PkgName := fst (packageAndName (self (Inter opts)))\<rparr>
                           else opts)
               in (case Execute opts of
                     Inl err \<Rightarrow> (opts, out, Some err)
                   | Inr buf \<Rightarrow>
                       (case ParseFile env buf of
                          Inl err \<Rightarrow>
                            (opts, out,
                             Some (Error (''Error parsing generated code: '' @ errorString err)))
                        | Inr astFile \<Rightarrow>
                            (case Fprint env astFile of
                               Inl err \<Rightarrow> (opts, out, Some err)
                             | Inr b \<Rightarrow>
                                 (if NoGoImports opts then
                                    (let (out, err) = Write env out b in (opts, out, err))
                                  else
                                    (case Process env b of
                                       Inl err \<Rightarrow>
                                         (opts, out,
                                          Some (Error (''Error fixing imports: '' @ errorString err)))
                                     | Inr bts \<Rightarrow>
                                         (let (out, err) = Write env out bts
                                          in (opts, out, err))))))))))"

section \<open>Parts of the functions, named for the proofs\<close>

text \<open>The difference \<open>d\<close> that the loop body computes at key \<open>k\<close>, when it gets that
  far, and the text it puts in front of \<open>d\<close>.\<close>

definition verdict :: "(string \<rightharpoonup> Method) \<Rightarrow> (string \<rightharpoonup> Method) \<Rightarrow> string \<Rightarrow> string option" where
  "verdict eMap rMap k =
     (case rMap k of
        None \<Rightarrow> None
      | Some v \<Rightarrow> (case eMap (Name (reflectMethod v)) of
                    None \<Rightarrow> None
                  | Some w \<Rightarrow> Some (Diff w v)))"

definition commentPrefix :: "string option \<Rightarrow> string" where
  "commentPrefix c = (case c of None \<Rightarrow> [] | Some s \<Rightarrow> if s \<noteq> [] then s @ '' '' else [])"

text \<open>One element of the list \<open>Methods\<close> returns.\<close>

definition commented :: "GenOpts \<Rightarrow> rmethod \<Rightarrow> Method" where
  "commented opts ft =
     (case commentOf opts (Name ft) of
        Some c \<Rightarrow> (Method (First (ImplName opts)) ft)\<lparr>Comment := c\<rparr>
      | None \<Rightarrow> Method (First (ImplName opts)) ft)"

text \<open>The package and implementation names \<open>handleExisting\<close> takes from the existing
  type.\<close>

definition existingNames :: "TypeDesc \<Rightarrow> string \<times> string" where
  "existingNames et =
     (case self et of
        Ptr _ elem \<Rightarrow> (let (pkg, name) = packageAndName elem in (pkg, ''*'' @ name))
      | _ \<Rightarrow> packageAndName (self et))"

text \<open>The first two statements of \<open>Generate\<close>, and the statement after
  \<open>handleExisting\<close>.\<close>

definition initMaps :: "GenOpts \<Rightarrow> GenOpts" where
  "initMaps opts =
     opts\<lparr>MethodBlacklist := Some (case MethodBlacklist opts of None \<Rightarrow> {} | Some bl \<Rightarrow> bl),
          Comments := Some (case Comments opts of None \<Rightarrow> Map.empty | Some cm \<Rightarrow> cm)\<rparr>"

definition defaultPkgName :: "GenOpts \<Rightarrow> GenOpts" where
  "defaultPkgName opts =
     (if PkgName opts = [] then opts\<lparr>PkgName := fst (packageAndName (self (Inter opts)))\<rparr>
      else opts)"

text \<open>What \<open>Generate\<close> does once the text of the template is in \<open>buf\<close>.\<close>

definition finish :: "('ast, 'w) env \<Rightarrow> bool \<Rightarrow> string \<Rightarrow> 'w \<Rightarrow> 'w \<times> error option" where
  "finish env noGoImports buf out =
     (case ParseFile env buf of
        Inl err \<Rightarrow> (out, Some (Error (''Error parsing generated code: '' @ errorString err)))
      | Inr astFile \<Rightarrow>
          (case Fprint env astFile of
             Inl err \<Rightarrow> (out, Some err)
           | Inr b \<Rightarrow>
               if noGoImports then Write env out b
               else (case Process env b of
                       Inl err \<Rightarrow> (out, Some (Error (''Error fixing imports: '' @ errorString err)))
                     | Inr bts \<Rightarrow> Write env out bts)))"

text \<open>What no step of the reconciliation changes: the fields it never assigns, the
  names already in the blacklist, and the comments of the keys it does not visit.\<close>

definition keeps :: "string set \<Rightarrow> GenOpts \<Rightarrow> GenOpts \<Rightarrow> bool" where
  "keeps ks opts opts' \<longleftrightarrow>
     Inter opts' = Inter opts \<and> Existing opts' = Existing opts
     \<and> NoNamedReturnValues opts' = NoNamedReturnValues opts
     \<and> NoGoImports opts' = NoGoImports opts \<and> Extra opts' = Extra opts
     \<and> PkgName opts' = PkgName opts \<and> ImplName opts' = ImplName opts
     \<and> (\<forall>n. inBlacklist opts n \<longrightarrow> inBlacklist opts' n)
     \<and> (\<forall>n. n \<notin> ks \<longrightarrow> commentOf opts' n = commentOf opts n)
     \<and> (MethodBlacklist opts \<noteq> None \<longrightarrow> MethodBlacklist opts' \<noteq> None)
     \<and> (Comments opts \<noteq> None \<longrightarrow> Comments opts' \<noteq> None)"

section \<open>Descriptors used as concrete inputs\<close>


definition basic :: "string \<Rightarrow> rtype" where
  "basic s = Other \<lparr>String = s, PkgPath = [], TypeName = s,
     ConvertibleToError = False, ConvertibleToCtx = False\<rparr>"

definition unnamed :: "string \<Rightarrow> tinfo" where
  "unnamed s = \<lparr>String = s, PkgPath = [], TypeName = [],
     ConvertibleToError = False, ConvertibleToCtx = False\<rparr>"

definition named :: "string \<Rightarrow> string \<Rightarrow> string \<Rightarrow> tinfo" where
  "named path pkg n = \<lparr>String = pkg @ ''.'' @ n, PkgPath = path, TypeName = n,
     ConvertibleToError = False, ConvertibleToCtx = False\<rparr>"

definition errorT :: rtype where
  "errorT = Other \<lparr>String = ''error'', PkgPath = [], TypeName = ''error'',
     ConvertibleToError = True, ConvertibleToCtx = False\<rparr>"

definition bytesT :: rtype where
  "bytesT = Slice (unnamed ''[]uint8'') (basic ''uint8'')"

definition ReadCloser :: TypeDesc where
  "ReadCloser = \<lparr>self = Other (named ''io'' ''io'' ''ReadCloser''),
     methodTable = [\<lparr>Name = ''Close'', In = [], Out = [errorT]\<rparr>,
                    \<lparr>Name = ''Read'', In = [bytesT], Out = [basic ''int'', errorT]\<rparr>]\<rparr>"

definition hadInt :: Method where
  "hadInt = \<lparr>reflectMethod = \<lparr>Name = ''Close'', In = [basic ''int''], Out = [errorT]\<rparr>,
     Inputs = [\<lparr>Type = basic ''int'', ArgName = ''i'', Sep = []\<rparr>],
     Outputs = [\<lparr>Type = errorT, ArgName = ''err'', Sep = []\<rparr>], Comment = []\<rparr>"

definition wantString :: Method where
  "wantString = \<lparr>reflectMethod = \<lparr>Name = ''Close'', In = [basic ''string''], Out = []\<rparr>,
     Inputs = [\<lparr>Type = basic ''string'', ArgName = ''s'', Sep = []\<rparr>],
     Outputs = [], Comment = []\<rparr>"

definition almostT :: rtype where
  "almostT = Other (named ''github.com/sasha-s/goimpl'' ''goimpl'' ''AlmostClientCodec'')"

definition closeRequired :: rmethod where
  "closeRequired = \<lparr>Name = ''Close'', In = [], Out = [errorT]\<rparr>"

definition closeExisting :: rmethod where
  "closeExisting = \<lparr>Name = ''Close'', In = [almostT, basic ''int''], Out = [errorT]\<rparr>"

definition Closer :: TypeDesc where
  "Closer = \<lparr>self = Other (named ''io'' ''io'' ''Closer''), methodTable = [closeRequired]\<rparr>"

definition AlmostCloser :: TypeDesc where
  "AlmostCloser = \<lparr>self = almostT, methodTable = [closeExisting]\<rparr>"

definition existingOpts :: "string set \<Rightarrow> (string \<rightharpoonup> string) \<Rightarrow> GenOpts" where
  "existingOpts bl cm = \<lparr>PkgName = [], ImplName = [], Inter = Closer,
     Existing = Some AlmostCloser, NoNamedReturnValues = False,
     MethodBlacklist = Some bl, Comments = Some cm, NoGoImports = False, Extra = []\<rparr>"

definition Stringer :: TypeDesc where
  "Stringer = \<lparr>self = Other (named ''fmt'' ''fmt'' ''Stringer''),
     methodTable = [\<lparr>Name = ''String'', In = [], Out = [basic ''string'']\<rparr>]\<rparr>"

definition badNameOpts :: GenOpts where
  "badNameOpts = \<lparr>PkgName = ''pkg'', ImplName = ''-bad name'', Inter = Stringer,
     Existing = None, NoNamedReturnValues = False, MethodBlacklist = None, Comments = None,
     NoGoImports = False, Extra = []\<rparr>"

definition readOpts :: GenOpts where
  "readOpts = \<lparr>PkgName = [], ImplName = ''*Impl'', Inter = ReadCloser,
     Existing = None, NoNamedReturnValues = True, MethodBlacklist = None, Comments = None,
     NoGoImports = True, Extra = []\<rparr>"

definition accepting :: "(string, string) env" where
  "accepting = \<lparr>ParseFile = Inr, Fprint = Inr, Process = Inr, Write = (\<lambda>w s. (w @ s, None))\<rparr>"

definition rejecting :: "(string, string) env" where
  "rejecting = \<lparr>ParseFile = (\<lambda>buf. Inl (Error ''expected type'')), Fprint = Inr, Process = Inr,
     Write = (\<lambda>w s. (w @ s, None))\<rparr>"

definition shortWriter :: "(string, string) env" where
  "shortWriter = \<lparr>ParseFile = Inr, Fprint = Inr, Process = Inr,
     Write = (\<lambda>w s. (w @ take 1 s, Some (Error ''short write'')))\<rparr>"

section \<open>The first letter of a type's name\<close>







section \<open>The uniqueness loop\<close>

lemma uniqueName_free: "name |\<notin>| cur \<Longrightarrow> uniqueName f cur name c = (name, finsert name cur)"
  by (simp add: uniqueName.simps)

lemma uniqueName_fresh:
  "fst (uniqueName f cur name c) |\<notin>| cur
   \<and> snd (uniqueName f cur name c) = finsert (fst (uniqueName f cur name c)) cur"
proof (induction f cur name c rule: uniqueName.induct)
  case (1 f cur name c)
  show ?case
  proof (cases "name |\<in>| cur")
    case True
    then have "uniqueName f cur name c = uniqueName f cur (f @ itoa c) (c + 1)"
      by (simp add: uniqueName.simps [of f cur name c])
    with True "1.IH" show ?thesis by simp
  next
    case False
    then show ?thesis by (simp add: uniqueName_free)
  qed
qed


lemma Short_uniqueName: "\<exists>f. Short t cur = uniqueName f cur f 1"
proof -
  obtain pkg name where pn: "packageAndName (stripPtrSlice t) = (pkg, name)"
    by (cases "packageAndName (stripPtrSlice t)")
  define f where "f = (if ConvertibleToError (info t) then ''err''
     else if ConvertibleToCtx (info t) then ''ctx''
     else (let (n, clean) = lowerName name
           in if length n \<le> 3 \<and> n \<noteq> clean \<and> n \<noteq> pkg then n else First name))"
  have "Short t cur = uniqueName f cur f 1"
    by (simp add: Short_def pn f_def Let_def)
  then show ?thesis ..
qed

lemma Short_fresh:
  "fst (Short t cur) |\<notin>| cur \<and> snd (Short t cur) = finsert (fst (Short t cur)) cur"
proof -
  from Short_uniqueName obtain f where "Short t cur = uniqueName f cur f 1" by blast
  with uniqueName_fresh [of f cur f 1] show ?thesis by simp
qed


lemma Short_errorT: "Short errorT cur = uniqueName ''err'' cur ''err'' 1"
  by (simp add: Short_def errorT_def Let_def split: prod.splits)


section \<open>The names of one method\<close>

lemma nameArgs_names:
  "nameArgs ts cur = (as, cur') \<Longrightarrow>
   distinct (map ArgName as) \<and> (\<forall>n \<in> set (map ArgName as). n |\<notin>| cur)
   \<and> fset cur' = fset cur \<union> set (map ArgName as)"
proof (induction ts arbitrary: cur as cur')
  case Nil
  then show ?case by simp
next
  case (Cons t ts)
  obtain n cur1 where s: "Short t cur = (n, cur1)" by (cases "Short t cur")
  obtain bs cur2 where r: "nameArgs ts cur1 = (bs, cur2)" by (cases "nameArgs ts cur1")
  from s have fresh: "n |\<notin>| cur" and c1: "cur1 = finsert n cur"
    using Short_fresh [of t cur] by simp_all
  from Cons.IH [OF r] have ih: "distinct (map ArgName bs)"
    "\<forall>m \<in> set (map ArgName bs). m |\<notin>| cur1" "fset cur2 = fset cur1 \<union> set (map ArgName bs)"
    by auto
  from Cons.prems s r have as: "as = \<lparr>Type = t, ArgName = n, Sep = (if ts = [] then [] else '', '')\<rparr> # bs"
    and c': "cur' = cur2" by (auto simp: Let_def)
  from ih fresh c1 show ?case unfolding as c' by auto
qed

text \<open>
  C6. The parameters of one method, inputs then outputs, get pairwise different names,
  none of them the receiver's name: the scope starts as the receiver's name alone, and
  \<open>Short\<close> returns a name that is not in the scope and adds it.
\<close>

theorem Method_names_unique:
  "(let m = Method recName ft;
        names = map ArgName (Inputs m @ Outputs m)
    in distinct names \<and> recName \<notin> set names)
   \<and> (\<forall>t cur. fst (Short t cur) |\<notin>| cur
               \<and> snd (Short t cur) = finsert (fst (Short t cur)) cur)"
proof
  obtain inp cur1 where i: "nameArgs (In ft) {|recName|} = (inp, cur1)"
    by (cases "nameArgs (In ft) {|recName|}")
  obtain out cur2 where o: "nameArgs (Out ft) cur1 = (out, cur2)"
    by (cases "nameArgs (Out ft) cur1")
  from i o have m: "Inputs (Method recName ft) = inp" "Outputs (Method recName ft) = out"
    by (simp_all add: Method_def)
  note I = nameArgs_names [OF i] and O = nameArgs_names [OF o]
  from I O have "distinct (map ArgName inp @ map ArgName out)"
    by (auto simp: image_iff) metis
  moreover from I O have "recName \<notin> set (map ArgName inp @ map ArgName out)"
    by auto
  ultimately show "let m = Method recName ft; names = map ArgName (Inputs m @ Outputs m)
    in distinct names \<and> recName \<notin> set names"
    by (simp add: m Let_def)
next
  show "\<forall>t cur. fst (Short t cur) |\<notin>| cur \<and> snd (Short t cur) = finsert (fst (Short t cur)) cur"
    by (simp add: Short_fresh)
qed

theorem Method_names_unique_witness:
  "map ArgName (Inputs (Method ''e'' \<lparr>Name = ''Unwrap'', In = [errorT], Out = [errorT]\<rparr>)
        @ Outputs (Method ''e'' \<lparr>Name = ''Unwrap'', In = [errorT], Out = [errorT]\<rparr>))
     = [''err'', ''err1'']"
  using Method_names_unique [of "''e''" "\<lparr>Name = ''Unwrap'', In = [errorT], Out = [errorT]\<rparr>"]
  by (simp add: Method_def Short_errorT uniqueName.simps itoa.simps digit_def)

section \<open>The text of a signature difference\<close>

lemma Join_Nil_iff: "\<forall>x \<in> set ds. x \<noteq> [] \<Longrightarrow> Join ds sep = [] \<longleftrightarrow> ds = []"
  by (induction ds sep rule: Join.induct) auto

lemma diffLoop_nonempty: "x \<in> set (diffLoop n i a b) \<Longrightarrow> x \<noteq> []"
  by (induction n i a b rule: diffLoop.induct) (auto split: if_splits)

lemma diffLoop_index:
  "length a = length b \<Longrightarrow>
   diffLoop n i a b =
     [n @ ''s['' @ itoa (i + j) @ '']: had `'' @ String (info (Type (a ! j))) @ ''` want `''
        @ String (info (Type (b ! j))) @ ''`''.
      j \<leftarrow> [0..<length a], String (info (Type (a ! j))) \<noteq> String (info (Type (b ! j)))]"
proof (induction a b arbitrary: i rule: list_induct2)
  case Nil
  then show ?case by simp
next
  case (Cons x xs y ys)
  have upt: "[0..<length (x # xs)] = 0 # map Suc [0..<length xs]"
    by (simp add: upt_conv_Cons map_Suc_upt del: upt_Suc)
  show ?case
    unfolding upt by (simp add: Cons.IH [of "Suc i"] o_def cong: if_cong)
qed

lemma diffLoop_Nil_iff:
  "length a = length b \<Longrightarrow>
   diffLoop n i a b = [] \<longleftrightarrow> (\<forall>j<length a. String (info (Type (a ! j))) = String (info (Type (b ! j))))"
proof (induction a b arbitrary: i rule: list_induct2)
  case Nil
  then show ?case by simp
next
  case (Cons x xs y ys)
  then show ?case by (auto simp: less_Suc_eq_0_disj)
qed

lemma diff_Nil_iff:
  "diff n a b = [] \<longleftrightarrow>
   length a = length b \<and> (\<forall>j<length a. String (info (Type (a ! j))) = String (info (Type (b ! j))))"
proof (cases "length a = length b")
  case True
  have "Join (diffLoop n 0 a b) ''; '' = [] \<longleftrightarrow> diffLoop n 0 a b = []"
    by (rule Join_Nil_iff) (simp add: diffLoop_nonempty)
  with True show ?thesis by (simp add: diff_def diffLoop_Nil_iff)
next
  case False
  then show ?thesis by (simp add: diff_def)
qed

text \<open>
  C2, as the code has it: the two type strings of a finding stand between backquotes
  (the character 0x60), not between single quotes. For two methods of the same name,
  \<open>Diff\<close> is the findings on the inputs, then those on the outputs, with \<open>; \<close>
  between the two when both are there, and it is empty exactly when both lists have the
  lengths and, index by index, the type strings of the other's. For one list, \<open>diff\<close>
  is the one sentence about the number of elements when the lengths differ, and
  otherwise one finding for each index whose type strings differ, in the order of the
  indices, joined by \<open>; \<close>.
\<close>

theorem Diff_format:
  "(Name (reflectMethod m) = Name (reflectMethod other) \<longrightarrow>
      Diff m other =
        (let a = diff ''input'' (Inputs m) (Inputs other);
             b = diff ''output'' (Outputs m) (Outputs other)
         in if a \<noteq> [] \<and> b \<noteq> [] then a @ ''; '' @ b else if a \<noteq> [] then a else b)
      \<and> (Diff m other = [] \<longleftrightarrow>
           length (Inputs m) = length (Inputs other)
           \<and> (\<forall>j<length (Inputs m). String (info (Type (Inputs m ! j)))
                                      = String (info (Type (Inputs other ! j))))
           \<and> length (Outputs m) = length (Outputs other)
           \<and> (\<forall>j<length (Outputs m). String (info (Type (Outputs m ! j)))
                                       = String (info (Type (Outputs other ! j))))))
   \<and> (length xs \<noteq> length ys \<longrightarrow>
        diff n xs ys = ''number of '' @ n @ ''s: had '' @ itoa (length xs) @ '', want ''
                         @ itoa (length ys))
   \<and> (length xs = length ys \<longrightarrow>
        diff n xs ys =
          Join [n @ ''s['' @ itoa j @ '']: had `'' @ String (info (Type (xs ! j))) @ ''` want `''
                  @ String (info (Type (ys ! j))) @ ''`''.
                j \<leftarrow> [0..<length xs],
                String (info (Type (xs ! j))) \<noteq> String (info (Type (ys ! j)))] ''; '')"
proof (intro conjI impI)
  assume same: "Name (reflectMethod m) = Name (reflectMethod other)"
  then show "Diff m other =
        (let a = diff ''input'' (Inputs m) (Inputs other);
             b = diff ''output'' (Outputs m) (Outputs other)
         in if a \<noteq> [] \<and> b \<noteq> [] then a @ ''; '' @ b else if a \<noteq> [] then a else b)"
    by (auto simp: Diff_def Let_def)
  from same have "Diff m other = [] \<longleftrightarrow>
      diff ''input'' (Inputs m) (Inputs other) = [] \<and> diff ''output'' (Outputs m) (Outputs other) = []"
    by (auto simp: Diff_def Let_def)
  then show "Diff m other = [] \<longleftrightarrow>
           length (Inputs m) = length (Inputs other)
           \<and> (\<forall>j<length (Inputs m). String (info (Type (Inputs m ! j)))
                                      = String (info (Type (Inputs other ! j))))
           \<and> length (Outputs m) = length (Outputs other)
           \<and> (\<forall>j<length (Outputs m). String (info (Type (Outputs m ! j)))
                                       = String (info (Type (Outputs other ! j))))"
    by (simp add: diff_Nil_iff)
next
  assume "length xs \<noteq> length ys"
  then show "diff n xs ys = ''number of '' @ n @ ''s: had '' @ itoa (length xs) @ '', want ''
                         @ itoa (length ys)"
    by (simp add: diff_def)
next
  assume "length xs = length ys"
  then show "diff n xs ys =
          Join [n @ ''s['' @ itoa j @ '']: had `'' @ String (info (Type (xs ! j))) @ ''` want `''
                  @ String (info (Type (ys ! j))) @ ''`''.
                j \<leftarrow> [0..<length xs],
                String (info (Type (xs ! j))) \<noteq> String (info (Type (ys ! j)))] ''; ''"
    using diffLoop_index [of xs ys n 0] by (simp add: diff_def cong: if_cong)
qed

lemma Diff_hadInt_wantString:
  "Diff hadInt wantString = ''inputs[0]: had `int` want `string`; number of outputs: had 1, want 0''"
  by (simp add: Diff_def diff_def hadInt_def wantString_def basic_def itoa.simps digit_def)

theorem Diff_format_witness:
  "Name (reflectMethod hadInt) = Name (reflectMethod wantString)
   \<and> length (Inputs hadInt) = length (Inputs wantString)
   \<and> length (Outputs hadInt) \<noteq> length (Outputs wantString)
   \<and> Diff hadInt wantString
       = ''inputs[0]: had `int` want `string`; number of outputs: had 1, want 0''"
  using Diff_format [of hadInt wantString "Outputs hadInt" "Outputs wantString" "''output''"]
  by (simp add: Diff_hadInt_wantString) (simp add: hadInt_def wantString_def)

theorem Diff_quotes_counterexample:
  "diff ''input'' (Inputs hadInt) (Inputs wantString)
     \<noteq> ''inputs[0]: had '' @ [CHR 0x27] @ ''int'' @ [CHR 0x27] @ '' want '' @ [CHR 0x27]
          @ ''string'' @ [CHR 0x27]"
  by (simp add: diff_def hadInt_def wantString_def basic_def itoa.simps digit_def)

section \<open>What the reconciliation loop does\<close>

lemma reconcile_missing:
  "verdict eMap rMap k = None \<Longrightarrow> reconcile eMap rMap k opts = (opts, None)"
  by (auto simp: verdict_def reconcile_def split: option.splits)

lemma reconcile_satisfied:
  "verdict eMap rMap k = Some [] \<Longrightarrow> MethodBlacklist opts = Some bl \<Longrightarrow>
   reconcile eMap rMap k opts = (opts\<lparr>MethodBlacklist := Some (insert k bl)\<rparr>, None)"
  by (auto simp: verdict_def reconcile_def split: option.splits)

lemma reconcile_mismatched:
  "verdict eMap rMap k = Some d \<Longrightarrow> d \<noteq> [] \<Longrightarrow> Comments opts = Some cm \<Longrightarrow>
   reconcile eMap rMap k opts
     = (opts\<lparr>Comments := Some (cm(k \<mapsto> commentPrefix (cm k) @ d))\<rparr>, None)"
  by (auto simp: verdict_def reconcile_def commentOf_def commentPrefix_def Let_def
      split: option.splits)

lemma forEachKey_reconcile:
  "distinct ks \<Longrightarrow> MethodBlacklist opts = Some bl \<Longrightarrow> Comments opts = Some cm \<Longrightarrow>
   forEachKey (reconcile eMap rMap) ks opts =
     (opts\<lparr>MethodBlacklist := Some (bl \<union> {k \<in> set ks. verdict eMap rMap k = Some []}),
           Comments := Some (\<lambda>k. case verdict eMap rMap k of
                                   None \<Rightarrow> cm k
                                 | Some d \<Rightarrow> if k \<in> set ks \<and> d \<noteq> []
                                            then Some (commentPrefix (cm k) @ d) else cm k)\<rparr>,
      None)"
proof (induction ks arbitrary: opts bl cm)
  case Nil
  then show ?case by (cases opts) (simp add: fun_eq_iff split: option.splits)
next
  case (Cons k ks)
  from Cons.prems have dist: "distinct ks" and notin: "k \<notin> set ks" by simp_all
  show ?case
  proof (cases "verdict eMap rMap k")
    case None
    have "forEachKey (reconcile eMap rMap) (k # ks) opts = forEachKey (reconcile eMap rMap) ks opts"
      by (simp add: reconcile_missing [OF None])
    also note Cons.IH [OF dist Cons.prems(2) Cons.prems(3)]
    also have "{k' \<in> set ks. verdict eMap rMap k' = Some []}
        = {k' \<in> set (k # ks). verdict eMap rMap k' = Some []}"
      using None by auto
    also have "(\<lambda>k'. case verdict eMap rMap k' of None \<Rightarrow> cm k'
         | Some d \<Rightarrow> if k' \<in> set ks \<and> d \<noteq> [] then Some (commentPrefix (cm k') @ d) else cm k')
       = (\<lambda>k'. case verdict eMap rMap k' of None \<Rightarrow> cm k'
         | Some d \<Rightarrow> if k' \<in> set (k # ks) \<and> d \<noteq> [] then Some (commentPrefix (cm k') @ d) else cm k')"
      using None by (auto simp: fun_eq_iff split: option.splits)
    finally show ?thesis .
  next
    case (Some d)
    show ?thesis
    proof (cases "d = []")
      case True
      let ?opts = "opts\<lparr>MethodBlacklist := Some (insert k bl)\<rparr>"
      from Some True have v: "verdict eMap rMap k = Some []" by simp
      have "forEachKey (reconcile eMap rMap) (k # ks) opts = forEachKey (reconcile eMap rMap) ks ?opts"
        by (simp add: reconcile_satisfied [OF v Cons.prems(2)])
      also have "\<dots> = (?opts\<lparr>MethodBlacklist := Some (insert k bl \<union> {k \<in> set ks. verdict eMap rMap k = Some []}),
           Comments := Some (\<lambda>k. case verdict eMap rMap k of
                                   None \<Rightarrow> cm k
                                 | Some d \<Rightarrow> if k \<in> set ks \<and> d \<noteq> []
                                            then Some (commentPrefix (cm k) @ d) else cm k)\<rparr>,
          None)"
      proof -
        have "MethodBlacklist ?opts = Some (insert k bl)" by simp
        moreover have "Comments ?opts = Some cm" by (simp add: Cons.prems)
        ultimately show ?thesis by (rule Cons.IH [OF dist])
      qed
      also have "insert k bl \<union> {k \<in> set ks. verdict eMap rMap k = Some []}
          = bl \<union> {k' \<in> set (k # ks). verdict eMap rMap k' = Some []}"
        using v by auto
      also have "(\<lambda>k'. case verdict eMap rMap k' of None \<Rightarrow> cm k'
         | Some d \<Rightarrow> if k' \<in> set ks \<and> d \<noteq> [] then Some (commentPrefix (cm k') @ d) else cm k')
       = (\<lambda>k'. case verdict eMap rMap k' of None \<Rightarrow> cm k'
         | Some d \<Rightarrow> if k' \<in> set (k # ks) \<and> d \<noteq> [] then Some (commentPrefix (cm k') @ d) else cm k')"
        using v by (auto simp: fun_eq_iff split: option.splits)
      finally show ?thesis by simp
    next
      case False
      let ?cm = "cm(k \<mapsto> commentPrefix (cm k) @ d)"
      let ?opts = "opts\<lparr>Comments := Some ?cm\<rparr>"
      have "forEachKey (reconcile eMap rMap) (k # ks) opts = forEachKey (reconcile eMap rMap) ks ?opts"
        by (simp add: reconcile_mismatched [OF Some False Cons.prems(3)])
      also have "\<dots> = (?opts\<lparr>MethodBlacklist := Some (bl \<union> {k \<in> set ks. verdict eMap rMap k = Some []}),
           Comments := Some (\<lambda>k. case verdict eMap rMap k of
                                   None \<Rightarrow> ?cm k
                                 | Some d \<Rightarrow> if k \<in> set ks \<and> d \<noteq> []
                                            then Some (commentPrefix (?cm k) @ d) else ?cm k)\<rparr>,
          None)"
      proof -
        have "MethodBlacklist ?opts = Some bl" by (simp add: Cons.prems)
        moreover have "Comments ?opts = Some ?cm" by simp
        ultimately show ?thesis by (rule Cons.IH [OF dist])
      qed
      also have "{k \<in> set ks. verdict eMap rMap k = Some []}
          = {k' \<in> set (k # ks). verdict eMap rMap k' = Some []}"
        using Some False by auto
      also have "(\<lambda>k'. case verdict eMap rMap k' of None \<Rightarrow> ?cm k'
         | Some d \<Rightarrow> if k' \<in> set ks \<and> d \<noteq> [] then Some (commentPrefix (?cm k') @ d) else ?cm k')
       = (\<lambda>k'. case verdict eMap rMap k' of None \<Rightarrow> cm k'
         | Some d \<Rightarrow> if k' \<in> set (k # ks) \<and> d \<noteq> [] then Some (commentPrefix (cm k') @ d) else cm k')"
        using Some False notin by (auto simp: fun_eq_iff split: option.splits)
      finally show ?thesis by (simp add: fun_upd_def)
    qed
  qed
qed

text \<open>The order in which the loop takes the keys makes no difference.\<close>

lemma forEachKey_order:
  assumes "distinct ks" and "distinct ks'" and "set ks = set ks'"
    and "MethodBlacklist opts = Some bl" and "Comments opts = Some cm"
  shows "forEachKey (reconcile eMap rMap) ks opts = forEachKey (reconcile eMap rMap) ks' opts"
  unfolding forEachKey_reconcile [OF assms(1,4,5)] forEachKey_reconcile [OF assms(2,4,5)]
    assms(3) ..

section \<open>The methods in the two maps\<close>

lemma find_append_eq:
  "find P (xs @ ys) = (case find P xs of Some x \<Rightarrow> Some x | None \<Rightarrow> find P ys)"
  by (induction xs) auto

lemma fold_upd_find:
  "fold (\<lambda>x r. r(nm x \<mapsto> x)) ms r k
     = (case find (\<lambda>x. nm x = k) (rev ms) of Some x \<Rightarrow> Some x | None \<Rightarrow> r k)"
  by (induction ms arbitrary: r) (auto simp: find_append_eq split: option.splits)

lemma toMap_find: "toMap ms k = find (\<lambda>x. Name (reflectMethod x) = k) (rev ms)"
  by (simp add: toMap_def fold_upd_find split: option.splits)

lemma toMap_None:
  "k \<notin> (\<lambda>x. Name (reflectMethod x)) ` set ms \<Longrightarrow> toMap ms k = None"
  by (auto simp: toMap_find find_None_iff)

lemma find_distinct:
  "distinct (map nm ms) \<Longrightarrow> x \<in> set ms \<Longrightarrow> find (\<lambda>y. nm y = nm x) ms = Some x"
  by (induction ms) (auto simp: image_iff)

lemma toMap_distinct:
  "distinct (map (\<lambda>x. Name (reflectMethod x)) ms) \<Longrightarrow> x \<in> set ms \<Longrightarrow>
   toMap ms (Name (reflectMethod x)) = Some x"
  using find_distinct [of "\<lambda>x. Name (reflectMethod x)" "rev ms" x]
  by (simp add: toMap_find rev_map [symmetric])

lemma nameArgs_Type: "map Type (fst (nameArgs ts cur)) = ts"
proof (induction ts arbitrary: cur)
  case Nil
  show ?case by simp
next
  case (Cons t ts)
  obtain n cur1 where s: "Short t cur = (n, cur1)" by (cases "Short t cur")
  obtain bs cur2 where r: "nameArgs ts cur1 = (bs, cur2)" by (cases "nameArgs ts cur1")
  from Cons.IH [of cur1] r have "map Type bs = ts" by simp
  with s r show ?case by (simp add: Let_def)
qed

lemma Method_fields:
  "reflectMethod (Method recName ft) = ft"
  "map Type (Inputs (Method recName ft)) = In ft"
  "map Type (Outputs (Method recName ft)) = Out ft"
  using nameArgs_Type [of "In ft" "{|recName|}"]
    nameArgs_Type [of "Out ft" "snd (nameArgs (In ft) {|recName|})"]
  by (auto simp: Method_def Let_def split: prod.splits)

lemma Method_Inputs_Nil: "Inputs (Method recName ft) = [] \<longleftrightarrow> In ft = []"
  using Method_fields(2) [of recName ft] by (metis map_is_Nil_conv)

lemma Methods_eq:
  "Methods opts it = map (commented opts) (filter (\<lambda>ft. \<not> inBlacklist opts (Name ft)) (methodTable it))"
  by (simp add: Methods_def commented_def Let_def)

lemma commented_fields:
  "reflectMethod (commented opts ft) = ft"
  "Inputs (commented opts ft) = Inputs (Method (First (ImplName opts)) ft)"
  "Outputs (commented opts ft) = Outputs (Method (First (ImplName opts)) ft)"
  by (simp_all add: commented_def Method_fields split: option.splits)

lemma Methods_names:
  "map (\<lambda>x. Name (reflectMethod x)) (Methods opts it)
     = filter (\<lambda>n. \<not> inBlacklist opts n) (map Name (methodTable it))"
  by (simp add: Methods_eq commented_fields filter_map o_def)

lemma dropReceivers_ok:
  "\<forall>m \<in> set ms. Inputs m \<noteq> [] \<Longrightarrow>
   dropReceivers ms = Inr (map (\<lambda>m. m\<lparr>Inputs := tl (Inputs m)\<rparr>) ms)"
  by (induction ms) (auto split: list.splits)

lemma Diff_Comment [simp]:
  "Diff (w\<lparr>Comment := c\<rparr>) v = Diff w v" "Diff w (v\<lparr>Comment := c\<rparr>) = Diff w v"
  by (simp_all add: Diff_def)

lemma Methods_Inputs_nonempty:
  assumes "\<forall>e \<in> set (methodTable et). In e \<noteq> []"
  shows "\<forall>m \<in> set (Methods opts et). Inputs m \<noteq> []"
  using assms by (auto simp: Methods_eq commented_fields Method_Inputs_Nil)

lemma Diff_cong:
  "reflectMethod w = reflectMethod w' \<Longrightarrow> Inputs w = Inputs w' \<Longrightarrow> Outputs w = Outputs w' \<Longrightarrow>
   reflectMethod v = reflectMethod v' \<Longrightarrow> Inputs v = Inputs v' \<Longrightarrow> Outputs v = Outputs v' \<Longrightarrow>
   Diff w v = Diff w' v'"
  by (simp add: Diff_def)

lemma verdict_required:
  fixes opts et m
  defines "em \<equiv> map (\<lambda>m. m\<lparr>Inputs := tl (Inputs m)\<rparr>) (Methods opts et)"
    and "mtds \<equiv> Methods opts (Inter opts)"
    and "rec \<equiv> First (ImplName opts)"
  assumes bl: "MethodBlacklist opts = Some bl"
    and uniq: "distinct (map Name (methodTable (Inter opts)))" "distinct (map Name (methodTable et))"
    and m: "m \<in> set (methodTable (Inter opts))" "Name m \<notin> bl"
  shows "Name m \<in> set (mapKeys mtds)"
    and "verdict (toMap em) (toMap mtds) (Name m) =
      (case find (\<lambda>e. Name e = Name m) (methodTable et) of
         None \<Rightarrow> None
       | Some e \<Rightarrow> Some (Diff ((Method rec e)\<lparr>Inputs := tl (Inputs (Method rec e))\<rparr>) (Method rec m)))"
proof -
  have inbl: "inBlacklist opts n \<longleftrightarrow> n \<in> bl" for n
    by (simp add: inBlacklist_def bl)
  have names_r: "map (\<lambda>x. Name (reflectMethod x)) mtds
      = filter (\<lambda>n. n \<notin> bl) (map Name (methodTable (Inter opts)))"
    by (simp add: mtds_def Methods_names inbl)
  have names_e: "map (\<lambda>x. Name (reflectMethod x)) em
      = filter (\<lambda>n. n \<notin> bl) (map Name (methodTable et))"
    using Methods_names [of opts et] by (simp add: em_def o_def inbl)
  have dist_r: "distinct (map (\<lambda>x. Name (reflectMethod x)) mtds)"
    unfolding names_r using uniq(1) by (rule distinct_filter)
  have dist_e: "distinct (map (\<lambda>x. Name (reflectMethod x)) em)"
    unfolding names_e using uniq(2) by (rule distinct_filter)
  from m have in_r: "commented opts m \<in> set mtds"
    by (simp add: mtds_def Methods_eq inbl)
  show "Name m \<in> set (mapKeys mtds)"
    using m by (simp add: mapKeys_def names_r)
  from toMap_distinct [OF dist_r in_r]
  have r: "toMap mtds (Name m) = Some (commented opts m)"
    by (simp add: commented_fields)
  show "verdict (toMap em) (toMap mtds) (Name m) =
      (case find (\<lambda>e. Name e = Name m) (methodTable et) of
         None \<Rightarrow> None
       | Some e \<Rightarrow> Some (Diff ((Method rec e)\<lparr>Inputs := tl (Inputs (Method rec e))\<rparr>) (Method rec m)))"
  proof (cases "find (\<lambda>e. Name e = Name m) (methodTable et)")
    case None
    then have "Name m \<notin> set (map (\<lambda>x. Name (reflectMethod x)) em)"
      unfolding names_e by (auto simp: find_None_iff)
    then have "toMap em (Name m) = None"
      by (intro toMap_None) simp
    with r None show ?thesis by (simp add: verdict_def commented_fields)
  next
    case (Some e)
    then have e: "e \<in> set (methodTable et)" "Name e = Name m"
      by (auto simp: find_Some_iff)
    let ?w = "(commented opts e)\<lparr>Inputs := tl (Inputs (commented opts e))\<rparr>"
    from e m have "?w \<in> set em"
      by (simp add: em_def Methods_eq inbl)
    from toMap_distinct [OF dist_e this] e
    have "toMap em (Name m) = Some ?w"
      by (simp add: commented_fields)
    moreover have "Diff ?w (commented opts m)
        = Diff ((Method rec e)\<lparr>Inputs := tl (Inputs (Method rec e))\<rparr>) (Method rec m)"
      by (rule Diff_cong) (simp_all add: commented_fields Method_fields rec_def)
    ultimately show ?thesis using r Some by (simp add: verdict_def commented_fields)
  qed
qed

section \<open>Reconciliation against an existing type\<close>

lemma handleExisting_reconciled:
  assumes ex: "Existing opts = Some et"
    and cfg: "ImplName opts = []" "PkgName opts = []"
    and maps: "MethodBlacklist opts = Some bl" "Comments opts = Some cm"
    and recv: "\<forall>e \<in> set (methodTable et). In e \<noteq> []"
  shows "handleExisting opts =
     (opts\<lparr>MethodBlacklist :=
             Some (bl \<union> {k \<in> set (mapKeys (Methods opts (Inter opts))).
                          verdict (toMap (map (\<lambda>m. m\<lparr>Inputs := tl (Inputs m)\<rparr>) (Methods opts et)))
                            (toMap (Methods opts (Inter opts))) k = Some []}),
           Comments :=
             Some (\<lambda>k. case verdict (toMap (map (\<lambda>m. m\<lparr>Inputs := tl (Inputs m)\<rparr>) (Methods opts et)))
                                (toMap (Methods opts (Inter opts))) k of
                          None \<Rightarrow> cm k
                        | Some d \<Rightarrow> if k \<in> set (mapKeys (Methods opts (Inter opts))) \<and> d \<noteq> []
                                   then Some (commentPrefix (cm k) @ d) else cm k),
           PkgName := fst (existingNames et), ImplName := snd (existingNames et)\<rparr>, None)"
proof -
  let ?em = "map (\<lambda>m. m\<lparr>Inputs := tl (Inputs m)\<rparr>) (Methods opts et)"
  let ?mtds = "Methods opts (Inter opts)"
  have d: "dropReceivers (Methods opts et) = Inr ?em"
    by (rule dropReceivers_ok) (rule Methods_Inputs_nonempty [OF recv])
  have loop: "forEachKey (reconcile (toMap ?em) (toMap ?mtds)) (mapKeys ?mtds) opts =
     (opts\<lparr>MethodBlacklist :=
             Some (bl \<union> {k \<in> set (mapKeys ?mtds). verdict (toMap ?em) (toMap ?mtds) k = Some []}),
           Comments :=
             Some (\<lambda>k. case verdict (toMap ?em) (toMap ?mtds) k of
                          None \<Rightarrow> cm k
                        | Some d \<Rightarrow> if k \<in> set (mapKeys ?mtds) \<and> d \<noteq> []
                                   then Some (commentPrefix (cm k) @ d) else cm k)\<rparr>, None)"
    by (rule forEachKey_reconcile) (simp_all add: mapKeys_def maps)
  show ?thesis
    unfolding handleExisting_def ex option.case cfg d sum.case Let_def loop prod.case
    by (cases "self et") (simp_all add: existingNames_def split: prod.splits)
qed

text \<open>
  C1, as the code has it. The existing type has its receiver as the first input of each
  method, the two types have one method of each name, and the maps are not nil. For a
  required method \<open>m\<close> whose name is not in the blacklist when reconciliation starts:
  when the existing type has no method of that name, the name stays out of the blacklist
  and its comment is what it was; when it has one, \<open>d\<close> is the difference of that method
  without its first input from \<open>m\<close>; when \<open>d\<close> is empty the name is in the blacklist and
  its comment is what it was; otherwise the name stays out of the blacklist and its
  comment is \<open>d\<close>, after the comment it had and one space when it had one that was
  not empty.
\<close>

theorem handleExisting_classifies:
  assumes ex: "Existing opts = Some et"
    and cfg: "ImplName opts = []" "PkgName opts = []"
    and maps: "MethodBlacklist opts = Some bl" "Comments opts = Some cm"
    and recv: "\<forall>e \<in> set (methodTable et). In e \<noteq> []"
    and uniq: "distinct (map Name (methodTable (Inter opts)))" "distinct (map Name (methodTable et))"
    and m: "m \<in> set (methodTable (Inter opts))" "Name m \<notin> bl"
  shows "\<exists>opts' bl' cm'.
     handleExisting opts = (opts', None) \<and> MethodBlacklist opts' = Some bl' \<and> Comments opts' = Some cm'
     \<and> (case find (\<lambda>e. Name e = Name m) (methodTable et) of
          None \<Rightarrow> Name m \<notin> bl' \<and> cm' (Name m) = cm (Name m)
        | Some e \<Rightarrow>
            (let w = Method (First (ImplName opts)) e;
                 d = Diff (w\<lparr>Inputs := tl (Inputs w)\<rparr>) (Method (First (ImplName opts)) m)
             in if d = [] then Name m \<in> bl' \<and> cm' (Name m) = cm (Name m)
                else Name m \<notin> bl'
                  \<and> cm' (Name m)
                      = Some ((case cm (Name m) of
                                 None \<Rightarrow> []
                               | Some c \<Rightarrow> if c = [] then [] else c @ '' '') @ d)))"
proof -
  let ?em = "map (\<lambda>m. m\<lparr>Inputs := tl (Inputs m)\<rparr>) (Methods opts et)"
  let ?mtds = "Methods opts (Inter opts)"
  let ?bl' = "bl \<union> {k \<in> set (mapKeys ?mtds). verdict (toMap ?em) (toMap ?mtds) k = Some []}"
  let ?cm' = "\<lambda>k. case verdict (toMap ?em) (toMap ?mtds) k of
                          None \<Rightarrow> cm k
                        | Some d \<Rightarrow> if k \<in> set (mapKeys ?mtds) \<and> d \<noteq> []
                                   then Some (commentPrefix (cm k) @ d) else cm k"
  let ?opts' = "opts\<lparr>MethodBlacklist := Some ?bl', Comments := Some ?cm',
           PkgName := fst (existingNames et), ImplName := snd (existingNames et)\<rparr>"
  note key = verdict_required(1) [OF maps(1) uniq m]
  note v = verdict_required(2) [OF maps(1) uniq m]
  have pre: "commentPrefix (cm (Name m))
      = (case cm (Name m) of None \<Rightarrow> [] | Some c \<Rightarrow> if c = [] then [] else c @ '' '')"
    by (simp add: commentPrefix_def split: option.splits)
  have "handleExisting opts = (?opts', None)"
    by (rule handleExisting_reconciled [OF ex cfg maps recv])
  moreover have "MethodBlacklist ?opts' = Some ?bl'" by simp
  moreover have "Comments ?opts' = Some ?cm'" by simp
  moreover have "(case find (\<lambda>e. Name e = Name m) (methodTable et) of
          None \<Rightarrow> Name m \<notin> ?bl' \<and> ?cm' (Name m) = cm (Name m)
        | Some e \<Rightarrow>
            (let w = Method (First (ImplName opts)) e;
                 d = Diff (w\<lparr>Inputs := tl (Inputs w)\<rparr>) (Method (First (ImplName opts)) m)
             in if d = [] then Name m \<in> ?bl' \<and> ?cm' (Name m) = cm (Name m)
                else Name m \<notin> ?bl'
                  \<and> ?cm' (Name m)
                      = Some ((case cm (Name m) of
                                 None \<Rightarrow> []
                               | Some c \<Rightarrow> if c = [] then [] else c @ '' '') @ d)))"
    using key m(2) by (simp add: v pre Let_def split: option.splits)
  ultimately show ?thesis by blast
qed

lemma Diff_close:
  "Diff ((Method (First []) closeExisting)\<lparr>Inputs := tl (Inputs (Method (First []) closeExisting))\<rparr>)
     (Method (First []) closeRequired) = ''number of inputs: had 1, want 0''"
  by code_simp

theorem handleExisting_classifies_witness:
  "Existing (existingOpts {} Map.empty) = Some AlmostCloser
   \<and> closeRequired \<in> set (methodTable (Inter (existingOpts {} Map.empty)))
   \<and> snd (handleExisting (existingOpts {} Map.empty)) = None
   \<and> ''Close'' \<notin> the (MethodBlacklist (fst (handleExisting (existingOpts {} Map.empty))))
   \<and> the (Comments (fst (handleExisting (existingOpts {} Map.empty)))) ''Close''
       = Some ''number of inputs: had 1, want 0''"
proof -
  have h: "Existing (existingOpts {} Map.empty) = Some AlmostCloser"
    "ImplName (existingOpts {} Map.empty) = []" "PkgName (existingOpts {} Map.empty) = []"
    "MethodBlacklist (existingOpts {} Map.empty) = Some {}"
    "Comments (existingOpts {} Map.empty) = Some Map.empty"
    "\<forall>e \<in> set (methodTable AlmostCloser). In e \<noteq> []"
    "distinct (map Name (methodTable (Inter (existingOpts {} Map.empty))))"
    "distinct (map Name (methodTable AlmostCloser))"
    "closeRequired \<in> set (methodTable (Inter (existingOpts {} Map.empty)))"
    "Name closeRequired \<notin> {}"
    by (simp_all add: existingOpts_def AlmostCloser_def Closer_def closeExisting_def)
  have f: "find (\<lambda>e. Name e = Name closeRequired) (methodTable AlmostCloser) = Some closeExisting"
    by (simp add: AlmostCloser_def closeExisting_def closeRequired_def)
  have n: "Name closeRequired = ''Close''" by (simp add: closeRequired_def)
  from handleExisting_classifies [OF h] h(1,9) show ?thesis
    unfolding f option.case h(2) Let_def Diff_close by (auto simp: n)
qed

lemma run_empty_comment:
  "the (Comments (fst (handleExisting (existingOpts {} [''Close'' \<mapsto> []])))) ''Close''
     = Some ''number of inputs: had 1, want 0''"
  by code_simp

lemma run_blacklisted:
  "''Close'' \<in> the (MethodBlacklist (fst (handleExisting (existingOpts {''Close''} Map.empty))))
   \<and> the (Comments (fst (handleExisting (existingOpts {''Close''} Map.empty)))) ''Close'' = None"
  by code_simp

theorem handleExisting_classifies_counterexample:
  "the (Comments (fst (handleExisting (existingOpts {} [''Close'' \<mapsto> []])))) ''Close''
     \<noteq> Some ('' '' @ ''number of inputs: had 1, want 0'')
   \<and> ''Close'' \<in> the (MethodBlacklist (fst (handleExisting (existingOpts {''Close''} Map.empty))))
   \<and> the (Comments (fst (handleExisting (existingOpts {''Close''} Map.empty)))) ''Close'' = None"
  using run_blacklisted by (simp add: run_empty_comment)

section \<open>The steps of Generate\<close>

lemma inBlacklist_names [simp]:
  "inBlacklist (opts\<lparr>PkgName := p\<rparr>) n = inBlacklist opts n"
  "inBlacklist (opts\<lparr>ImplName := i\<rparr>) n = inBlacklist opts n"
  by (simp_all add: inBlacklist_def)

lemma commentOf_names [simp]:
  "commentOf (opts\<lparr>PkgName := p\<rparr>) n = commentOf opts n"
  "commentOf (opts\<lparr>ImplName := i\<rparr>) n = commentOf opts n"
  by (simp_all add: commentOf_def)

lemma initMaps_eq:
  "(let opts = (if MethodBlacklist opts = None then opts\<lparr>MethodBlacklist := Some {}\<rparr> else opts)
    in (if Comments opts = None then opts\<lparr>Comments := Some Map.empty\<rparr> else opts)) = initMaps opts"
  by (cases opts) (auto simp: initMaps_def Let_def)

lemma Generate_unfold:
  "Generate env opts out =
     (case handleExisting (initMaps opts) of
        (opts1, Some err) \<Rightarrow> (opts1, out, Some err)
      | (opts1, None) \<Rightarrow>
          (defaultPkgName opts1,
           finish env (NoGoImports opts1) (templateS (defaultPkgName opts1)) out))"
proof -
  obtain opts1 e where h: "handleExisting (initMaps opts) = (opts1, e)"
    by (cases "handleExisting (initMaps opts)")
  have np: "NoGoImports (defaultPkgName opts1) = NoGoImports opts1"
    by (simp add: defaultPkgName_def)
  show ?thesis
  proof (cases e)
    case None
    have "Generate env opts out =
      (case handleExisting (initMaps opts) of
        (opts1, Some err) \<Rightarrow> (opts1, out, Some err)
      | (opts1, None) \<Rightarrow>
          (let opts2 = defaultPkgName opts1
           in (case ParseFile env (templateS opts2) of
                 Inl err \<Rightarrow> (opts2, out, Some (Error (''Error parsing generated code: '' @ errorString err)))
               | Inr astFile \<Rightarrow>
                  (case Fprint env astFile of
                     Inl err \<Rightarrow> (opts2, out, Some err)
                   | Inr b \<Rightarrow>
                      (if NoGoImports opts2 then
                         (let (out, err) = Write env out b in (opts2, out, err))
                       else
                         (case Process env b of
                            Inl err \<Rightarrow> (opts2, out, Some (Error (''Error fixing imports: '' @ errorString err)))
                          | Inr bts \<Rightarrow> (let (out, err) = Write env out bts in (opts2, out, err))))))))"
      unfolding Generate_def initMaps_eq [unfolded Let_def] Let_def Execute_def sum.case
        defaultPkgName_def ..
    also have "\<dots> = (defaultPkgName opts1,
           finish env (NoGoImports opts1) (templateS (defaultPkgName opts1)) out)"
      unfolding h None by (simp add: finish_def np Let_def split: sum.splits prod.splits)
    finally show ?thesis by (simp add: h None)
  next
    case (Some err)
    have "Generate env opts out = (opts1, out, Some err)"
      unfolding Generate_def initMaps_eq [unfolded Let_def] Let_def h Some by simp
    then show ?thesis by (simp add: h Some)
  qed
qed

lemma initMaps_fields [simp]:
  "PkgName (initMaps opts) = PkgName opts" "ImplName (initMaps opts) = ImplName opts"
  "Inter (initMaps opts) = Inter opts" "Existing (initMaps opts) = Existing opts"
  "NoNamedReturnValues (initMaps opts) = NoNamedReturnValues opts"
  "NoGoImports (initMaps opts) = NoGoImports opts" "Extra (initMaps opts) = Extra opts"
  "MethodBlacklist (initMaps opts)
     = Some (case MethodBlacklist opts of None \<Rightarrow> {} | Some bl \<Rightarrow> bl)"
  "Comments (initMaps opts) = Some (case Comments opts of None \<Rightarrow> Map.empty | Some cm \<Rightarrow> cm)"
  by (simp_all add: initMaps_def)

lemma defaultPkgName_fields [simp]:
  "ImplName (defaultPkgName opts) = ImplName opts"
  "Inter (defaultPkgName opts) = Inter opts" "Existing (defaultPkgName opts) = Existing opts"
  "NoNamedReturnValues (defaultPkgName opts) = NoNamedReturnValues opts"
  "NoGoImports (defaultPkgName opts) = NoGoImports opts" "Extra (defaultPkgName opts) = Extra opts"
  "MethodBlacklist (defaultPkgName opts) = MethodBlacklist opts"
  "Comments (defaultPkgName opts) = Comments opts"
  "inBlacklist (defaultPkgName opts) n = inBlacklist opts n"
  "commentOf (defaultPkgName opts) n = commentOf opts n"
  by (simp_all add: defaultPkgName_def)

lemma Generate_opts:
  "fst (Generate env opts out) =
     (case handleExisting (initMaps opts) of
        (opts1, Some err) \<Rightarrow> opts1
      | (opts1, None) \<Rightarrow> defaultPkgName opts1)"
  by (simp add: Generate_unfold split: prod.splits option.splits)

section \<open>What reconciliation leaves alone\<close>

lemma keeps_refl: "keeps ks opts opts"
  by (simp add: keeps_def)

lemma keeps_trans: "keeps ks a b \<Longrightarrow> keeps ks b c \<Longrightarrow> keeps ks a c"
  by (simp add: keeps_def)

lemma keeps_mono: "keeps ks a b \<Longrightarrow> ks \<subseteq> ks' \<Longrightarrow> keeps ks' a b"
  by (auto simp: keeps_def)

lemma reconcile_keeps: "keeps {k} opts (fst (reconcile eMap rMap k opts))"
  by (auto simp: reconcile_def keeps_def Let_def inBlacklist_def commentOf_def
      split: option.splits)

lemma forEachKey_keeps: "keeps (set ks) opts (fst (forEachKey (reconcile eMap rMap) ks opts))"
proof (induction ks arbitrary: opts)
  case Nil
  show ?case by (simp add: keeps_refl)
next
  case (Cons k ks)
  obtain opts1 e where r: "reconcile eMap rMap k opts = (opts1, e)"
    by (cases "reconcile eMap rMap k opts")
  from reconcile_keeps [of k opts eMap rMap] r
  have k1: "keeps (set (k # ks)) opts opts1"
    by (auto intro: keeps_mono)
  show ?case
  proof (cases e)
    case None
    from Cons.IH [of opts1] have "keeps (set (k # ks)) opts1 (fst (forEachKey (reconcile eMap rMap) ks opts1))"
      by (rule keeps_mono) auto
    with k1 show ?thesis by (simp add: r None) (rule keeps_trans)
  next
    case (Some err)
    with k1 show ?thesis by (simp add: r)
  qed
qed

lemma handleExisting_keeps:
  "Inter (fst (handleExisting opts)) = Inter opts"
  "Existing (fst (handleExisting opts)) = Existing opts"
  "NoNamedReturnValues (fst (handleExisting opts)) = NoNamedReturnValues opts"
  "NoGoImports (fst (handleExisting opts)) = NoGoImports opts"
  "Extra (fst (handleExisting opts)) = Extra opts"
  "inBlacklist opts n \<Longrightarrow> inBlacklist (fst (handleExisting opts)) n"
  "n \<notin> set (mapKeys (Methods opts (Inter opts))) \<Longrightarrow>
     commentOf (fst (handleExisting opts)) n = commentOf opts n"
  "MethodBlacklist opts \<noteq> None \<Longrightarrow> MethodBlacklist (fst (handleExisting opts)) \<noteq> None"
  "Comments opts \<noteq> None \<Longrightarrow> Comments (fst (handleExisting opts)) \<noteq> None"
proof -
  have "keeps (set (mapKeys (Methods opts (Inter opts)))) opts
          ((fst (handleExisting opts))\<lparr>PkgName := PkgName opts, ImplName := ImplName opts\<rparr>)"
  proof (cases "Existing opts")
    case None
    then show ?thesis by (simp add: handleExisting_def keeps_def)
  next
    case (Some et)
    show ?thesis
    proof (cases "ImplName opts \<noteq> [] \<or> PkgName opts \<noteq> []")
      case True
      then show ?thesis by (auto simp: handleExisting_def Some keeps_def)
    next
      case False
      show ?thesis
      proof (cases "dropReceivers (Methods opts et)")
        case (Inl e)
        with False show ?thesis by (simp add: handleExisting_def Some keeps_def)
      next
        case (Inr em)
        let ?loop = "forEachKey (reconcile (toMap em) (toMap (Methods opts (Inter opts))))
                       (mapKeys (Methods opts (Inter opts))) opts"
        obtain opts1 e where l: "?loop = (opts1, e)" by (cases ?loop)
        from forEachKey_keeps [of "mapKeys (Methods opts (Inter opts))" opts "toMap em"
            "toMap (Methods opts (Inter opts))"] l
        have k: "keeps (set (mapKeys (Methods opts (Inter opts)))) opts opts1" by simp
        have "\<exists>p i. fst (handleExisting opts) = opts1\<lparr>PkgName := p, ImplName := i\<rparr>"
        proof (cases e)
          case None
          with False Inr l show ?thesis
            unfolding handleExisting_def Some
            by (cases "self et")
              (auto simp: Let_def split: prod.splits intro: exI)
        next
          case (Some err)
          have "opts1 = opts1\<lparr>PkgName := PkgName opts1, ImplName := ImplName opts1\<rparr>" by simp
          moreover from False Inr l Some \<open>Existing opts = Some et\<close>
          have "fst (handleExisting opts) = opts1"
            by (simp add: handleExisting_def Let_def)
          ultimately show ?thesis by metis
        qed
        then obtain p i where "fst (handleExisting opts) = opts1\<lparr>PkgName := p, ImplName := i\<rparr>"
          by blast
        with k show ?thesis
          by (simp add: keeps_def)
      qed
    qed
  qed
  then show "Inter (fst (handleExisting opts)) = Inter opts"
    "Existing (fst (handleExisting opts)) = Existing opts"
    "NoNamedReturnValues (fst (handleExisting opts)) = NoNamedReturnValues opts"
    "NoGoImports (fst (handleExisting opts)) = NoGoImports opts"
    "Extra (fst (handleExisting opts)) = Extra opts"
    "inBlacklist opts n \<Longrightarrow> inBlacklist (fst (handleExisting opts)) n"
    "n \<notin> set (mapKeys (Methods opts (Inter opts))) \<Longrightarrow>
       commentOf (fst (handleExisting opts)) n = commentOf opts n"
    "MethodBlacklist opts \<noteq> None \<Longrightarrow> MethodBlacklist (fst (handleExisting opts)) \<noteq> None"
    "Comments opts \<noteq> None \<Longrightarrow> Comments (fst (handleExisting opts)) \<noteq> None"
    by (simp_all add: keeps_def)
qed

section \<open>The results of handleExisting\<close>

lemma handleExisting_config_error:
  assumes "Existing opts = Some et" and "ImplName opts \<noteq> [] \<or> PkgName opts \<noteq> []"
  shows "handleExisting opts =
    (opts, Some (Error (if ImplName opts \<noteq> [] then ''only one of ImplName and existing should be set.''
                        else ''only one of PkgName and existing should be set.'')))"
  using assms by (auto simp: handleExisting_def)

lemma handleExisting_no_existing: "Existing opts = None \<Longrightarrow> handleExisting opts = (opts, None)"
  by (simp add: handleExisting_def)

lemma handleExisting_names:
  assumes "Existing opts = Some et" and "ImplName opts = []" and "PkgName opts = []"
    and "MethodBlacklist opts \<noteq> None" and "Comments opts \<noteq> None"
    and "\<forall>e \<in> set (methodTable et). In e \<noteq> []"
  shows "snd (handleExisting opts) = None"
    and "PkgName (fst (handleExisting opts)) = fst (existingNames et)"
    and "ImplName (fst (handleExisting opts)) = snd (existingNames et)"
proof -
  from assms(4,5) obtain bl cm where "MethodBlacklist opts = Some bl" "Comments opts = Some cm"
    by auto
  note r = handleExisting_reconciled [OF assms(1-3) this assms(6)]
  show "snd (handleExisting opts) = None"
    and "PkgName (fst (handleExisting opts)) = fst (existingNames et)"
    and "ImplName (fst (handleExisting opts)) = snd (existingNames et)"
    unfolding r by simp_all
qed

lemma handleExisting_succeeds:
  assumes "Existing opts = None \<or> (ImplName opts = [] \<and> PkgName opts = [])"
    and "\<forall>et. Existing opts = Some et \<longrightarrow> (\<forall>e \<in> set (methodTable et). In e \<noteq> [])"
  shows "snd (handleExisting (initMaps opts)) = None"
proof (cases "Existing opts")
  case None
  then show ?thesis by (simp add: handleExisting_no_existing)
next
  case (Some et)
  with assms show ?thesis
    by (intro handleExisting_names(1) [of _ et]) simp_all
qed

section \<open>The configuration error\<close>

text \<open>
  C3. With an existing type and an implementation name, or an existing type and a package
  name, \<open>Generate\<close> returns the error of \<open>handleExisting\<close>; the sink is as it was, and
  the options are as they were but for a nil blacklist or comment map, which is now
  empty. The result does not depend on the methods of either type.
\<close>

theorem Generate_config_error:
  assumes "Existing opts = Some et" and "ImplName opts \<noteq> [] \<or> PkgName opts \<noteq> []"
  shows "Generate env opts out =
    (opts\<lparr>MethodBlacklist := Some (case MethodBlacklist opts of None \<Rightarrow> {} | Some bl \<Rightarrow> bl),
          Comments := Some (case Comments opts of None \<Rightarrow> Map.empty | Some cm \<Rightarrow> cm)\<rparr>,
     out,
     Some (Error (if ImplName opts \<noteq> [] then ''only one of ImplName and existing should be set.''
                  else ''only one of PkgName and existing should be set.'')))"
proof -
  from assms have "handleExisting (initMaps opts) =
    (initMaps opts, Some (Error (if ImplName opts \<noteq> [] then ''only one of ImplName and existing should be set.''
                        else ''only one of PkgName and existing should be set.'')))"
    using handleExisting_config_error [of "initMaps opts" et] by simp
  then show ?thesis
    by (simp add: Generate_unfold initMaps_def)
qed

theorem Generate_config_error_witness:
  "Existing ((existingOpts {} Map.empty)\<lparr>ImplName := ''Impl''\<rparr>) = Some AlmostCloser
   \<and> ImplName ((existingOpts {} Map.empty)\<lparr>ImplName := ''Impl''\<rparr>) \<noteq> []
   \<and> snd (Generate accepting ((existingOpts {} Map.empty)\<lparr>ImplName := ''Impl''\<rparr>) [])
       = ([], Some (Error ''only one of ImplName and existing should be set.''))
   \<and> MethodBlacklist (fst (Generate accepting ((existingOpts {} Map.empty)\<lparr>ImplName := ''Impl''\<rparr>) []))
       = Some {}"
  using Generate_config_error [of "(existingOpts {} Map.empty)\<lparr>ImplName := ''Impl''\<rparr>"
      AlmostCloser accepting "[]"]
  by (simp add: existingOpts_def)

section \<open>The options after Generate\<close>

text \<open>
  C9, as the code has it. \<open>Generate\<close> never changes \<open>Inter\<close>, \<open>NoNamedReturnValues\<close>,
  \<open>NoGoImports\<close>, \<open>Extra\<close> and \<open>Existing\<close>, and it leaves no map nil. Without an
  existing type a nil map becomes the empty map, the implementation name stays, and an
  empty package name becomes the package of the interface. With an existing type and no
  implementation or package name given (so that \<open>handleExisting\<close> does not stop with its
  error), the implementation name is the name of the existing type, after a star when
  that type is a pointer, and the package name is the package of the existing type, or
  the package of the interface when that is empty.
\<close>

theorem Generate_mutates_opts:
  "let opts' = fst (Generate env opts out)
   in Inter opts' = Inter opts \<and> NoNamedReturnValues opts' = NoNamedReturnValues opts
      \<and> NoGoImports opts' = NoGoImports opts \<and> Extra opts' = Extra opts
      \<and> Existing opts' = Existing opts
      \<and> MethodBlacklist opts' \<noteq> None \<and> Comments opts' \<noteq> None
      \<and> (Existing opts = None \<longrightarrow>
            MethodBlacklist opts' = Some (case MethodBlacklist opts of None \<Rightarrow> {} | Some bl \<Rightarrow> bl)
            \<and> Comments opts' = Some (case Comments opts of None \<Rightarrow> Map.empty | Some cm \<Rightarrow> cm)
            \<and> ImplName opts' = ImplName opts
            \<and> PkgName opts' = (if PkgName opts = [] then fst (packageAndName (self (Inter opts)))
                               else PkgName opts))
      \<and> (\<forall>et. Existing opts = Some et \<and> ImplName opts = [] \<and> PkgName opts = []
                \<and> (\<forall>e \<in> set (methodTable et). In e \<noteq> []) \<longrightarrow>
            (case self et of
               Ptr _ elem \<Rightarrow>
                 ImplName opts' = ''*'' @ snd (packageAndName elem)
                 \<and> PkgName opts' = (if fst (packageAndName elem) = []
                                    then fst (packageAndName (self (Inter opts)))
                                    else fst (packageAndName elem))
             | _ \<Rightarrow>
                 ImplName opts' = snd (packageAndName (self et))
                 \<and> PkgName opts' = (if fst (packageAndName (self et)) = []
                                    then fst (packageAndName (self (Inter opts)))
                                    else fst (packageAndName (self et)))))"
proof -
  let ?o = "initMaps opts"
  obtain opts1 e where h: "handleExisting ?o = (opts1, e)" by (cases "handleExisting ?o")
  then have o1: "opts1 = fst (handleExisting ?o)" by simp
  let ?opts' = "fst (Generate env opts out)"
  have g: "?opts' = (case e of Some err \<Rightarrow> opts1 | None \<Rightarrow> defaultPkgName opts1)"
    by (simp add: Generate_opts h split: option.splits)
  have frame: "Inter ?opts' = Inter opts" "NoNamedReturnValues ?opts' = NoNamedReturnValues opts"
    "NoGoImports ?opts' = NoGoImports opts" "Extra ?opts' = Extra opts"
    "Existing ?opts' = Existing opts"
    unfolding g o1 by (simp_all add: handleExisting_keeps split: option.splits)
  have nonnil: "MethodBlacklist ?opts' \<noteq> None" "Comments ?opts' \<noteq> None"
    unfolding g o1 using handleExisting_keeps(8,9) [of ?o]
    by (simp_all split: option.splits)
  have none: "MethodBlacklist ?opts' = Some (case MethodBlacklist opts of None \<Rightarrow> {} | Some bl \<Rightarrow> bl)
            \<and> Comments ?opts' = Some (case Comments opts of None \<Rightarrow> Map.empty | Some cm \<Rightarrow> cm)
            \<and> ImplName ?opts' = ImplName opts
            \<and> PkgName ?opts' = (if PkgName opts = [] then fst (packageAndName (self (Inter opts)))
                               else PkgName opts)" if "Existing opts = None"
  proof -
    from that have "handleExisting ?o = (?o, None)"
      by (simp add: handleExisting_no_existing)
    then have "?opts' = defaultPkgName ?o" by (simp add: Generate_opts)
    then show ?thesis by (simp add: defaultPkgName_def)
  qed
  have some: "(case self et of
               Ptr _ elem \<Rightarrow>
                 ImplName ?opts' = ''*'' @ snd (packageAndName elem)
                 \<and> PkgName ?opts' = (if fst (packageAndName elem) = []
                                    then fst (packageAndName (self (Inter opts)))
                                    else fst (packageAndName elem))
             | _ \<Rightarrow>
                 ImplName ?opts' = snd (packageAndName (self et))
                 \<and> PkgName ?opts' = (if fst (packageAndName (self et)) = []
                                    then fst (packageAndName (self (Inter opts)))
                                    else fst (packageAndName (self et))))"
    if "Existing opts = Some et \<and> ImplName opts = [] \<and> PkgName opts = []
                \<and> (\<forall>e \<in> set (methodTable et). In e \<noteq> [])" for et
  proof -
    from that have "snd (handleExisting ?o) = None"
      and "PkgName (fst (handleExisting ?o)) = fst (existingNames et)"
      and "ImplName (fst (handleExisting ?o)) = snd (existingNames et)"
      by (simp_all add: handleExisting_names)
    moreover from this(1) have "?opts' = defaultPkgName (fst (handleExisting ?o))"
      by (cases "handleExisting ?o") (simp add: Generate_opts)
    ultimately have "ImplName ?opts' = snd (existingNames et)"
      and "PkgName ?opts' = (if fst (existingNames et) = []
                             then fst (packageAndName (self (Inter opts)))
                             else fst (existingNames et))"
      by (simp_all add: defaultPkgName_def handleExisting_keeps(1))
    then show ?thesis
      by (cases "self et") (simp_all add: existingNames_def split: prod.splits)
  qed
  from frame nonnil none some show ?thesis
    unfolding Let_def by blast
qed

lemma packageAndName_ReadCloser: "packageAndName (self ReadCloser) = (''io'', ''ReadCloser'')"
  by (simp add: packageAndName_def ReadCloser_def named_def)

theorem Generate_mutates_opts_witness:
  "(Existing readOpts = None
    \<and> MethodBlacklist (fst (Generate accepting readOpts [])) = Some {}
    \<and> Comments (fst (Generate accepting readOpts [])) = Some Map.empty
    \<and> ImplName (fst (Generate accepting readOpts [])) = ''*Impl''
    \<and> PkgName (fst (Generate accepting readOpts [])) = ''io'')
   \<and> (Existing (existingOpts {} Map.empty) = Some AlmostCloser
      \<and> ImplName (fst (Generate accepting (existingOpts {} Map.empty) [])) = ''AlmostClientCodec''
      \<and> PkgName (fst (Generate accepting (existingOpts {} Map.empty) [])) = ''goimpl'')"
proof
  have "Existing readOpts = None" "MethodBlacklist readOpts = None" "Comments readOpts = None"
    "ImplName readOpts = ''*Impl''" "PkgName readOpts = []" "Inter readOpts = ReadCloser"
    by (simp_all add: readOpts_def)
  with Generate_mutates_opts [of accepting readOpts "[]"]
  show "Existing readOpts = None
    \<and> MethodBlacklist (fst (Generate accepting readOpts [])) = Some {}
    \<and> Comments (fst (Generate accepting readOpts [])) = Some Map.empty
    \<and> ImplName (fst (Generate accepting readOpts [])) = ''*Impl''
    \<and> PkgName (fst (Generate accepting readOpts [])) = ''io''"
    by (simp add: Let_def packageAndName_ReadCloser)
next
  let ?o = "existingOpts {} Map.empty"
  have h: "Existing ?o = Some AlmostCloser \<and> ImplName ?o = [] \<and> PkgName ?o = []
     \<and> (\<forall>e \<in> set (methodTable AlmostCloser). In e \<noteq> [])"
    by (simp add: existingOpts_def AlmostCloser_def closeExisting_def)
  have s: "self AlmostCloser = Other (named ''github.com/sasha-s/goimpl'' ''goimpl'' ''AlmostClientCodec'')"
    by (simp add: AlmostCloser_def almostT_def)
  from Generate_mutates_opts [of accepting ?o "[]"] h
  have "case self AlmostCloser of
               Ptr _ elem \<Rightarrow>
                 ImplName (fst (Generate accepting ?o [])) = ''*'' @ snd (packageAndName elem)
                 \<and> PkgName (fst (Generate accepting ?o [])) = (if fst (packageAndName elem) = []
                                    then fst (packageAndName (self (Inter ?o)))
                                    else fst (packageAndName elem))
             | _ \<Rightarrow>
                 ImplName (fst (Generate accepting ?o [])) = snd (packageAndName (self AlmostCloser))
                 \<and> PkgName (fst (Generate accepting ?o [])) = (if fst (packageAndName (self AlmostCloser)) = []
                                    then fst (packageAndName (self (Inter ?o)))
                                    else fst (packageAndName (self AlmostCloser)))"
    unfolding Let_def by blast
  with h show "Existing ?o = Some AlmostCloser
      \<and> ImplName (fst (Generate accepting ?o [])) = ''AlmostClientCodec''
      \<and> PkgName (fst (Generate accepting ?o [])) = ''goimpl''"
    by (simp add: s named_def packageAndName_def)
qed

theorem Generate_mutates_opts_counterexample:
  "Existing ((existingOpts {} Map.empty)\<lparr>ImplName := ''Impl''\<rparr>) = Some AlmostCloser
   \<and> ImplName (fst (Generate accepting ((existingOpts {} Map.empty)\<lparr>ImplName := ''Impl''\<rparr>) []))
       = ''Impl''
   \<and> PkgName (fst (Generate accepting ((existingOpts {} Map.empty)\<lparr>ImplName := ''Impl''\<rparr>) []))
       = []"
proof -
  let ?o = "(existingOpts {} Map.empty)\<lparr>ImplName := ''Impl''\<rparr>"
  have e: "Existing (initMaps ?o) = Some AlmostCloser" "ImplName (initMaps ?o) \<noteq> [] \<or> PkgName (initMaps ?o) \<noteq> []"
    by (simp_all add: existingOpts_def)
  have "fst (Generate accepting ?o []) = initMaps ?o"
    by (simp add: Generate_opts handleExisting_config_error [OF e])
  then show ?thesis by (simp add: existingOpts_def)
qed

section \<open>Names already in the blacklist\<close>



section \<open>Errors and the sink\<close>

lemma finish_out:
  "fst (finish env n buf out) = out \<or> (\<exists>bts. Write env out bts = finish env n buf out)"
  by (auto simp: finish_def split: sum.splits)

text \<open>
  C8, as the code has it. When \<open>handleExisting\<close> returns no error and the parser
  rejects the text of the template, \<open>Generate\<close> returns the error whose message is
  \<open>Error parsing generated code: \<close> followed by the message of the parser, and nothing
  else: the text of the template is not in it. The sink is then as it was. On every
  path, the sink is as it was unless \<open>Generate\<close> reached its one call of \<open>Write\<close>, and
  then the sink and the error are what that call returned.
\<close>

theorem Generate_parse_error:
  "(\<forall>perr. (Existing opts = None \<or> (ImplName opts = [] \<and> PkgName opts = []))
           \<and> (\<forall>et. Existing opts = Some et \<longrightarrow> (\<forall>e \<in> set (methodTable et). In e \<noteq> []))
           \<and> ParseFile env (templateS (fst (Generate env opts out))) = Inl perr \<longrightarrow>
      snd (Generate env opts out)
        = (out, Some (Error (''Error parsing generated code: '' @ errorString perr))))
   \<and> (fst (snd (Generate env opts out)) = out
       \<or> (\<exists>bts. Write env out bts = snd (Generate env opts out)))"
proof (intro conjI allI impI)
  fix perr
  assume a: "(Existing opts = None \<or> (ImplName opts = [] \<and> PkgName opts = []))
           \<and> (\<forall>et. Existing opts = Some et \<longrightarrow> (\<forall>e \<in> set (methodTable et). In e \<noteq> []))
           \<and> ParseFile env (templateS (fst (Generate env opts out))) = Inl perr"
  then have "snd (handleExisting (initMaps opts)) = None"
    by (intro handleExisting_succeeds) simp_all
  then obtain opts1 where h: "handleExisting (initMaps opts) = (opts1, None)"
    by (cases "handleExisting (initMaps opts)") simp
  from a have "ParseFile env (templateS (defaultPkgName opts1)) = Inl perr"
    by (simp add: Generate_unfold h)
  then show "snd (Generate env opts out)
        = (out, Some (Error (''Error parsing generated code: '' @ errorString perr)))"
    by (simp add: Generate_unfold h finish_def)
next
  show "fst (snd (Generate env opts out)) = out
       \<or> (\<exists>bts. Write env out bts = snd (Generate env opts out))"
    using finish_out [of env _ _ out]
    by (cases "handleExisting (initMaps opts)")
      (auto simp: Generate_unfold split: option.splits)
qed

theorem Generate_parse_error_witness:
  "Existing badNameOpts = None
   \<and> ParseFile rejecting (templateS (fst (Generate rejecting badNameOpts [])))
       = Inl (Error ''expected type'')
   \<and> snd (Generate rejecting badNameOpts [])
       = ([], Some (Error ''Error parsing generated code: expected type''))"
  using Generate_parse_error [of badNameOpts rejecting "[]"]
  by (simp add: badNameOpts_def rejecting_def)

lemma templateS_length: "52 \<le> length (templateS R)"
  by (simp add: templateS_def)

theorem Generate_parse_error_counterexample:
  "snd (snd (Generate rejecting badNameOpts []))
     = Some (Error ''Error parsing generated code: expected type'')
   \<and> length ''Error parsing generated code: expected type''
       < length (templateS (fst (Generate rejecting badNameOpts [])))
   \<and> snd (Generate shortWriter readOpts []) = ([CHR 0x0A], Some (Error ''short write''))"
proof -
  have b: "handleExisting (initMaps badNameOpts) = (initMaps badNameOpts, None)"
    by (simp add: handleExisting_no_existing badNameOpts_def)
  have r: "handleExisting (initMaps readOpts) = (initMaps readOpts, None)"
    by (simp add: handleExisting_no_existing readOpts_def)
  have "snd (snd (Generate rejecting badNameOpts []))
     = Some (Error ''Error parsing generated code: expected type'')"
    by (simp add: Generate_unfold b finish_def rejecting_def)
  moreover have "length ''Error parsing generated code: expected type''
       < length (templateS (fst (Generate rejecting badNameOpts [])))"
    using templateS_length [of "fst (Generate rejecting badNameOpts [])"] by simp
  moreover have "take 1 (templateS R) = [CHR 0x0A]" for R
    by (simp add: templateS_def)
  then have "snd (Generate shortWriter readOpts []) = ([CHR 0x0A], Some (Error ''short write''))"
    by (simp add: Generate_unfold r finish_def shortWriter_def)
  ultimately show ?thesis by simp
qed

section \<open>The stubs\<close>



end
